theory Spec2Isabelle
  imports Main "HOL-Library.Char_ord" "HOL-Library.List_Lexorder" "HOL-Library.Product_Lexorder"
begin

section \<open>Listing queries of arxiv-browse (browse/services/database/listings.py)\<close>

text \<open>
  The module answers two questions from the metadata store: the listing of the papers of
  a category or archive for a month or a year (\<open>get_articles_for_month\<close>), and the
  per-month counts of new and cross-listed papers of a year
  (\<open>get_yearly_article_counts\<close>). The store's tables are modelled as lists of rows,
  the queries as list functions, and every exception the Python raises as a value of
  \<open>error\<close>. A leading underscore of a Python name is dropped, Isabelle names cannot
  start with one.
\<close>

subsection \<open>Errors\<close>

datatype error = BadRequest | IndexError | ValueError

subsection \<open>Strings: Python and SQL primitives the module calls\<close>

text \<open>
  \<open>str.split()\<close> without arguments: the maximal runs of non-whitespace characters.
  A \<open>char\<close> stands for a code point below 256; whitespace is what \<open>str.isspace\<close>
  accepts there: the ASCII blanks and separators, U+0085 and U+00A0.
\<close>

definition is_space :: "char \<Rightarrow> bool" where
  "is_space c = (c \<in> set [CHR 0x09, CHR 0x0A, CHR 0x0B, CHR 0x0C, CHR 0x0D,
                           CHR 0x1C, CHR 0x1D, CHR 0x1E, CHR 0x1F, CHR 0x20,
                           CHR 0x85, CHR 0xA0])"

fun split_from :: "string \<Rightarrow> string \<Rightarrow> string list" where
  "split_from cur [] = (if cur = [] then [] else [rev cur])"
| "split_from cur (c # cs) =
     (if is_space c then (if cur = [] then split_from [] cs else rev cur # split_from [] cs)
      else split_from (c # cur) cs)"

definition py_split :: "string \<Rightarrow> string list" where
  "py_split s = split_from [] s"

text \<open>
  SQL \<open>LIKE\<close>: \<open>%\<close> matches any run of characters, \<open>_\<close> any one character.
  SQLAlchemy's \<open>startswith(x)\<close> is \<open>LIKE x || '%'\<close> and \<open>contains(x)\<close> is
  \<open>LIKE '%' || x || '%'\<close>, with the wildcards of \<open>x\<close> left as they are. Characters
  are compared exactly (the collation of the store is not modelled).
\<close>

fun sql_like :: "string \<Rightarrow> string \<Rightarrow> bool" where
  "sql_like [] s = (s = [])"
| "sql_like (p # ps) [] = (p = CHR ''%'' \<and> sql_like ps [])"
| "sql_like (p # ps) (c # cs) =
     (if p = CHR ''%'' then sql_like ps (c # cs) \<or> sql_like (p # ps) cs
      else (p = CHR ''_'' \<or> p = c) \<and> sql_like ps cs)"

definition startswith :: "string \<Rightarrow> string \<Rightarrow> bool" where
  "startswith s x = sql_like (x @ ''%'') s"

definition contains :: "string \<Rightarrow> string \<Rightarrow> bool" where
  "contains s x = sql_like (''%'' @ x @ ''%'') s"

text \<open>Decimal digits of a natural number, and Python's \<open>str(n)\<close> and \<open>f"{n:02d}"\<close>.\<close>

definition digit_char :: "nat \<Rightarrow> char" where
  "digit_char d = ''0123456789'' ! d"

fun dec :: "nat \<Rightarrow> string" where
  "dec n = (if n < 10 then [digit_char n] else dec (n div 10) @ [digit_char (n mod 10)])"

definition py_str :: "int \<Rightarrow> string" where
  "py_str n = (if n < 0 then CHR ''-'' # dec (nat (- n)) else dec (nat n))"

definition fmt02 :: "int \<Rightarrow> string" where
  "fmt02 n = (if n < 0 then CHR ''-'' # dec (nat (- n))
              else if n < 10 then CHR ''0'' # dec (nat n) else dec (nat n))"

text \<open>
  Python's \<open>int(s)\<close> on a string: surrounding whitespace is stripped, one sign is
  allowed, then decimal digits, with single underscores allowed between digits.
  Anything else raises \<open>ValueError\<close>.
\<close>

definition is_digit :: "char \<Rightarrow> bool" where
  "is_digit c = (c \<in> set ''0123456789'')"

definition digit_val :: "char \<Rightarrow> nat" where
  "digit_val c = of_char c - 48"

fun digits_ok :: "bool \<Rightarrow> string \<Rightarrow> bool" where
  "digits_ok after_digit [] = after_digit"
| "digits_ok after_digit (c # cs) =
     (if is_digit c then digits_ok True cs
      else if c = CHR ''_'' then after_digit \<and> digits_ok False cs
      else False)"

definition digits_value :: "string \<Rightarrow> nat" where
  "digits_value s = fold (\<lambda>c acc. 10 * acc + digit_val c) (filter is_digit s) 0"

definition strip :: "string \<Rightarrow> string" where
  "strip s = rev (dropWhile is_space (rev (dropWhile is_space s)))"

definition parse_digits :: "string \<Rightarrow> error + int" where
  "parse_digits s = (if digits_ok False s then Inr (int (digits_value s)) else Inl ValueError)"

definition py_int :: "string \<Rightarrow> error + int" where
  "py_int s =
     (case strip s of
        [] \<Rightarrow> Inl ValueError
      | c # cs \<Rightarrow>
          if c = CHR ''-'' then (case parse_digits cs of Inl e \<Rightarrow> Inl e | Inr n \<Rightarrow> Inr (- n))
          else if c = CHR ''+'' then parse_digits cs
          else parse_digits (c # cs))"

subsection \<open>The taxonomy (arxiv.taxonomy)\<close>

text \<open>
  The taxonomy tables belong to the arxiv-base package and are parameters here. A Python
  dict is iterated in insertion order, so each table is the list of its items:
  \<open>ARCHIVES\<close> the archive ids, \<open>CATEGORIES\<close> each category id with the
  \<open>in_archive\<close> entry of its record, \<open>CATEGORY_ALIASES\<close> the pairs old name, new
  name, \<open>ARCHIVES_SUBSUMED\<close> the pairs old archive, category that subsumed it.
\<close>

record taxonomy =
  ARCHIVES :: "string list"
  CATEGORIES :: "(string \<times> string) list"
  CATEGORY_ALIASES :: "(string \<times> string) list"
  ARCHIVES_SUBSUMED :: "(string \<times> string) list"

fun alias_lookup :: "(string \<times> string) list \<Rightarrow> string \<Rightarrow> string option" where
  "alias_lookup [] category = None"
| "alias_lookup ((key, val) # rest) category =
     (if category = key then Some val
      else if category = val then Some key
      else alias_lookup rest category)"

fun subsumed_lookup :: "(string \<times> string) list \<Rightarrow> string \<Rightarrow> string option" where
  "subsumed_lookup [] category = None"
| "subsumed_lookup ((key, val) # rest) category =
     (if category = val then Some key else subsumed_lookup rest category)"

definition check_alternate_name :: "taxonomy \<Rightarrow> string \<Rightarrow> string option" where
  "check_alternate_name tax category =
     (case alias_lookup (CATEGORY_ALIASES tax) category of
        Some name \<Rightarrow> Some name
      | None \<Rightarrow> subsumed_lookup (ARCHIVES_SUBSUMED tax) category)"

text \<open>\<open>if second_name:\<close> is false for \<open>None\<close> and for the empty string.\<close>

definition with_second_name :: "taxonomy \<Rightarrow> string \<Rightarrow> string list" where
  "with_second_name tax category =
     (case check_alternate_name tax category of
        None \<Rightarrow> [category]
      | Some second_name \<Rightarrow> if second_name \<noteq> [] then [category, second_name] else [category])"

definition get_categories_from_archive :: "taxonomy \<Rightarrow> string \<Rightarrow> string list" where
  "get_categories_from_archive tax archive =
     concat (map (\<lambda>(category, in_archive).
                    if in_archive = archive then with_second_name tax category else [])
                 (CATEGORIES tax))"

definition all_possible_categories :: "taxonomy \<Rightarrow> string \<Rightarrow> error + string list" where
  "all_possible_categories tax archive_or_cat =
     (if archive_or_cat \<in> set (ARCHIVES tax) then
        Inr (get_categories_from_archive tax archive_or_cat)
      else if archive_or_cat \<in> set (map fst (CATEGORIES tax)) then
        Inr (with_second_name tax archive_or_cat)
      else Inl BadRequest)"

subsection \<open>The store's tables\<close>

text \<open>
  The tables are declared in browse/services/database/models.py, which is not among the
  sources; the rows carry the columns the module reads. \<open>is_primary\<close> is the 0/1 flag
  the module's own comment describes ("a value of 1 if any of the requested categories is
  the primary and 0 otherwise"), so it is a \<open>bool\<close>, \<open>True\<close> for 1, and the test
  \<open>primary == 1\<close> is the flag itself. \<open>is_current\<close> is only ever compared with 1.
\<close>

record Document =
  doc_document_id :: int
  doc_paper_id :: string

record DocumentCategory =
  dc_document_id :: int
  dc_category :: string
  dc_is_primary :: bool

record Metadata =
  document_id :: int
  paper_id :: string
  version :: int
  title :: string
  authors :: string
  abstract :: string
  abs_categories :: string
  comments :: string
  journal_ref :: string
  source_size :: int
  source_flags :: string
  is_current :: int

record database =
  documents :: "Document list"
  document_categories :: "DocumentCategory list"
  metadata :: "Metadata list"

subsection \<open>Listings\<close>

record VersionEntry =
  ve_version :: int
  ve_raw :: string
  size_kilobytes :: int
  source_flag :: string

record DocMetadata =
  arxiv_id :: string
  arxiv_id_v :: string
  dm_title :: string
  dm_authors :: string
  dm_abstract :: string
  categories :: string
  primary_category :: string
  secondary_categories :: "string list"
  dm_comments :: string
  dm_journal_ref :: string
  dm_version :: int
  version_history :: "VersionEntry list"

record ListingItem =
  item_id :: string
  listingType :: string
  primary :: string
  article :: DocMetadata

text \<open>
  \<open>expires\<close> of a \<open>Listing\<close> comes from \<open>gen_expires()\<close>, which reads the clock; it
  is left out. A date is the triple year, month, day.
\<close>

record Listing =
  listings :: "ListingItem list"
  pubdates :: "((int \<times> int \<times> int) \<times> int) list"
  count :: int

text \<open>\<open>if month:\<close> is false for \<open>None\<close> and for 0.\<close>

definition month_given :: "int option \<Rightarrow> bool" where
  "month_given month = (case month of None \<Rightarrow> False | Some m \<Rightarrow> m \<noteq> 0)"

definition era_filter :: "int \<Rightarrow> int option \<Rightarrow> string \<Rightarrow> bool" where
  "era_filter year month pid =
     (if month_given month then
        (if year > 2007 then startswith pid (fmt02 (year mod 100) @ fmt02 (the month))
         else if year < 2007 then
           sql_like (''%/'' @ fmt02 (year mod 100) @ fmt02 (the month) @ ''%'') pid
         else startswith pid (fmt02 (year mod 100) @ fmt02 (the month))
              \<or> sql_like (''%/'' @ fmt02 (year mod 100) @ fmt02 (the month) @ ''%'') pid)
      else
        (if year > 2007 then startswith pid (fmt02 (year mod 100))
         else if year < 2007 then sql_like (''%/'' @ fmt02 (year mod 100) @ ''%'') pid
         else startswith pid (fmt02 (year mod 100))
              \<or> sql_like (''%/'' @ fmt02 (year mod 100) @ ''%'') pid))"

definition doc_ids :: "database \<Rightarrow> int \<Rightarrow> int option \<Rightarrow> int list" where
  "doc_ids db year month =
     map doc_document_id (filter (\<lambda>d. era_filter year month (doc_paper_id d)) (documents db))"

text \<open>
  The subquery: the category rows of the selected documents whose category is one of
  the list, grouped by document, with the maximum of \<open>is_primary\<close> over the group.
\<close>

definition cat_query :: "database \<Rightarrow> int list \<Rightarrow> string list \<Rightarrow> (int \<times> bool) list" where
  "cat_query db ids category_list =
     (let rows = filter (\<lambda>r. dc_document_id r \<in> set ids \<and> dc_category r \<in> set category_list)
                        (document_categories db)
      in map (\<lambda>d. (d, Max (set (map dc_is_primary (filter (\<lambda>r. dc_document_id r = d) rows)))))
             (remdups (map dc_document_id rows)))"

definition main_query :: "database \<Rightarrow> (int \<times> bool) list \<Rightarrow> (Metadata \<times> bool) list" where
  "main_query db cq =
     concat (map (\<lambda>(d, is_primary).
                    map (\<lambda>m. (m, is_primary))
                        (filter (\<lambda>m. document_id m = d \<and> is_current m = 1) (metadata db)))
                 cq)"

text \<open>
  \<open>ORDER BY is_primary DESC, paper_id\<close>, then \<open>OFFSET skip LIMIT show\<close>. Paper ids
  are compared as character lists; rows with equal keys stay in the order of the join,
  which SQL leaves open. \<open>skip\<close> and \<open>show\<close> are natural numbers (the store refuses
  negative ones).
\<close>

definition order_rows :: "(Metadata \<times> bool) list \<Rightarrow> (Metadata \<times> bool) list" where
  "order_rows rows = sort_key (\<lambda>(m, is_primary). (\<not> is_primary, paper_id m)) rows"

definition make_item :: "Metadata \<times> bool \<Rightarrow> error + ListingItem" where
  "make_item entry =
     (case entry of (meta, is_primary) \<Rightarrow>
        (case py_split (abs_categories meta) of
           [] \<Rightarrow> Inl IndexError
         | pc # scs \<Rightarrow>
             Inr \<lparr>item_id = paper_id meta,
                  listingType = (if is_primary then ''new'' else ''cross''),
                  primary = pc,
                  article =
                    \<lparr>arxiv_id = paper_id meta,
                     arxiv_id_v = paper_id meta @ ''v'' @ py_str (version meta),
                     dm_title = title meta,
                     dm_authors = authors meta,
                     dm_abstract = abstract meta,
                     categories = abs_categories meta,
                     primary_category = pc,
                     secondary_categories = scs,
                     dm_comments = comments meta,
                     dm_journal_ref = journal_ref meta,
                     dm_version = version meta,
                     version_history =
                       [\<lparr>ve_version = version meta, ve_raw = [],
                         size_kilobytes = source_size meta,
                         source_flag = source_flags meta\<rparr>]\<rparr>\<rparr>))"

fun entries_loop ::
  "ListingItem list \<Rightarrow> ListingItem list \<Rightarrow> (Metadata \<times> bool) list
     \<Rightarrow> error + (ListingItem list \<times> ListingItem list)" where
  "entries_loop new_listings cross_listings [] = Inr (new_listings, cross_listings)"
| "entries_loop new_listings cross_listings (entry # rest) =
     (case make_item entry of
        Inl e \<Rightarrow> Inl e
      | Inr item \<Rightarrow>
          if snd entry then entries_loop (new_listings @ [item]) cross_listings rest
          else entries_loop new_listings (cross_listings @ [item]) rest)"

definition entries_into_listing_items ::
  "(Metadata \<times> bool) list \<Rightarrow> error + (ListingItem list \<times> ListingItem list)" where
  "entries_into_listing_items query_result = entries_loop [] [] query_result"

text \<open>\<open>datetime(year, month, 1)\<close> raises \<open>ValueError\<close> outside years 1 to 9999 and months 1 to 12.\<close>

definition first_of_month :: "int \<Rightarrow> int \<Rightarrow> error + (int \<times> int \<times> int)" where
  "first_of_month year month =
     (if 1 \<le> year \<and> year \<le> 9999 \<and> 1 \<le> month \<and> month \<le> 12 then Inr (year, month, 1)
      else Inl ValueError)"

text \<open>\<open>main_query\<close> of the request, and the page \<open>rows.all()\<close> returns.\<close>

definition joined_rows :: "database \<Rightarrow> string list \<Rightarrow> int \<Rightarrow> int option \<Rightarrow> (Metadata \<times> bool) list" where
  "joined_rows db category_list year month =
     main_query db (cat_query db (doc_ids db year month) category_list)"

definition result_rows ::
  "database \<Rightarrow> string list \<Rightarrow> int \<Rightarrow> int option \<Rightarrow> nat \<Rightarrow> nat \<Rightarrow> (Metadata \<times> bool) list" where
  "result_rows db category_list year month skip show =
     take show (drop skip (order_rows (joined_rows db category_list year month)))"

definition get_articles_for_month ::
  "database \<Rightarrow> taxonomy \<Rightarrow> string \<Rightarrow> int \<Rightarrow> int option \<Rightarrow> nat \<Rightarrow> nat \<Rightarrow> error + Listing" where
  "get_articles_for_month db tax archive_or_cat year month skip show =
     (case all_possible_categories tax archive_or_cat of
        Inl e \<Rightarrow> Inl e
      | Inr category_list \<Rightarrow>
          (case entries_into_listing_items (result_rows db category_list year month skip show) of
             Inl e \<Rightarrow> Inl e
           | Inr (new_listings, cross_listings) \<Rightarrow>
               (case first_of_month year (if month_given month then the month else 1) of
                  Inl e \<Rightarrow> Inl e
                | Inr d \<Rightarrow>
                    Inr \<lparr>listings = new_listings @ cross_listings,
                         pubdates = [(d, 1)],
                         count = int (length (joined_rows db category_list year month))\<rparr>)))"

subsection \<open>Yearly counts\<close>

record MonthCount =
  mc_year :: int
  month :: int
  new :: int
  cross :: int

record YearCount =
  year :: int
  new_count :: int
  cross_count :: int
  by_month :: "MonthCount list"

record count_row =
  row_month :: string
  count_new :: int
  count_cross :: int

definition categorization_case :: "string \<Rightarrow> string \<Rightarrow> string" where
  "categorization_case archive cats =
     (if startswith cats archive then ''new''
      else if contains cats (CHR '' '' # archive) then ''cross''
      else ''no_match'')"

text \<open>\<open>count(distinct(case when categorization_case = cls then paper_id else NULL))\<close> over a group.\<close>

definition count_distinct :: "string \<Rightarrow> string \<Rightarrow> Metadata list \<Rightarrow> int" where
  "count_distinct archive cls grp =
     int (length (remdups (map paper_id
            (filter (\<lambda>m. categorization_case archive (abs_categories m) = cls) grp))))"

text \<open>\<open>GROUP BY month\<close>: one row for each month string among the rows.\<close>

definition group_counts :: "(Metadata \<Rightarrow> string) \<Rightarrow> string \<Rightarrow> Metadata list \<Rightarrow> count_row list" where
  "group_counts month_of archive rows =
     map (\<lambda>mo. \<lparr>row_month = mo,
                count_new = count_distinct archive ''new'' (filter (\<lambda>m. month_of m = mo) rows),
                count_cross = count_distinct archive ''cross'' (filter (\<lambda>m. month_of m = mo) rows)\<rparr>)
         (remdups (map month_of rows))"

text \<open>SQL \<open>substr(s, pos, len)\<close> counts positions from 1; \<open>substring_index(s, '/', -1)\<close>
  is what follows the last slash, all of \<open>s\<close> when it has none.\<close>

definition sql_substr :: "string \<Rightarrow> nat \<Rightarrow> nat \<Rightarrow> string" where
  "sql_substr s pos len = take len (drop (pos - 1) s)"

definition after_last_slash :: "string \<Rightarrow> string" where
  "after_last_slash s = rev (takeWhile (\<lambda>c. c \<noteq> CHR ''/'') (rev s))"

definition count_query_new :: "Metadata list \<Rightarrow> string \<Rightarrow> int \<Rightarrow> count_row list" where
  "count_query_new metas archive yr =
     group_counts (\<lambda>m. sql_substr (paper_id m) 3 2) archive
       (filter (\<lambda>m. startswith (paper_id m) (fmt02 (yr mod 100))) metas)"

definition count_query_old :: "Metadata list \<Rightarrow> string \<Rightarrow> int \<Rightarrow> count_row list" where
  "count_query_old metas archive yr =
     group_counts (\<lambda>m. sql_substr (after_last_slash (paper_id m)) 3 2) archive
       (filter (\<lambda>m. sql_like (''%/'' @ fmt02 (yr mod 100) @ ''%'') (paper_id m)) metas)"

text \<open>A Python list index: a negative index counts from the end, an index out of range raises.\<close>

definition py_index :: "nat \<Rightarrow> int \<Rightarrow> error + nat" where
  "py_index n i =
     (if 0 \<le> i \<and> i < int n then Inr (nat i)
      else if - int n \<le> i \<and> i < 0 then Inr (nat (int n + i))
      else Inl IndexError)"

fun process_loop ::
  "MonthCount list \<Rightarrow> int \<Rightarrow> int \<Rightarrow> count_row list \<Rightarrow> error + (MonthCount list \<times> int \<times> int)" where
  "process_loop monthlist new_total cross_total [] = Inr (monthlist, new_total, cross_total)"
| "process_loop monthlist new_total cross_total (entry # rest) =
     (case py_int (row_month entry) of
        Inl e \<Rightarrow> Inl e
      | Inr m \<Rightarrow>
          (case py_index (length monthlist) (m - 1) of
             Inl e \<Rightarrow> Inl e
           | Inr i \<Rightarrow>
               process_loop
                 (monthlist[i := (monthlist ! i)\<lparr>new := count_new entry, cross := count_cross entry\<rparr>])
                 (new_total + count_new entry) (cross_total + count_cross entry) rest))"

definition process_yearly_article_counts :: "count_row list \<Rightarrow> int \<Rightarrow> error + YearCount" where
  "process_yearly_article_counts query_result yr =
     (case process_loop (map (\<lambda>i. \<lparr>mc_year = yr, month = i, new = 0, cross = 0\<rparr>) [1..12])
             0 0 query_result of
        Inl e \<Rightarrow> Inl e
      | Inr (monthlist, new_total, cross_total) \<Rightarrow>
          Inr \<lparr>year = yr, new_count = new_total, cross_count = cross_total, by_month = monthlist\<rparr>)"

definition get_yearly_article_counts_new_id :: "Metadata list \<Rightarrow> string \<Rightarrow> int \<Rightarrow> error + YearCount" where
  "get_yearly_article_counts_new_id metas archive yr =
     process_yearly_article_counts (count_query_new metas archive yr) yr"

definition get_yearly_article_counts_old_id :: "Metadata list \<Rightarrow> string \<Rightarrow> int \<Rightarrow> error + YearCount" where
  "get_yearly_article_counts_old_id metas archive yr =
     process_yearly_article_counts (count_query_old metas archive yr) yr"

fun combine_loop ::
  "YearCount \<Rightarrow> YearCount \<Rightarrow> MonthCount list \<Rightarrow> int list \<Rightarrow> error + MonthCount list" where
  "combine_loop yc1 yc2 months [] = Inr months"
| "combine_loop yc1 yc2 months (i # rest) =
     (case py_index (length (by_month yc1)) (i - 1) of
        Inl e \<Rightarrow> Inl e
      | Inr k1 \<Rightarrow>
          (case py_index (length (by_month yc2)) (i - 1) of
             Inl e \<Rightarrow> Inl e
           | Inr k2 \<Rightarrow>
               combine_loop yc1 yc2
                 (months @ [\<lparr>mc_year = year yc1, month = i,
                             new = new (by_month yc1 ! k1) + new (by_month yc2 ! k2),
                             cross = cross (by_month yc1 ! k1) + cross (by_month yc2 ! k2)\<rparr>])
                 rest))"

definition combine_yearly_article_counts :: "YearCount \<Rightarrow> YearCount \<Rightarrow> error + YearCount" where
  "combine_yearly_article_counts yc1 yc2 =
     (case combine_loop yc1 yc2 [] [1..12] of
        Inl e \<Rightarrow> Inl e
      | Inr months \<Rightarrow>
          Inr \<lparr>year = year yc1,
               new_count = new_count yc1 + new_count yc2,
               cross_count = cross_count yc1 + cross_count yc2,
               by_month = months\<rparr>)"

definition math_token :: "string \<Rightarrow> string" where
  "math_token archive =
     (if archive = ''math'' \<and> CHR ''.'' \<notin> set archive then archive @ ''.'' else archive)"

definition get_yearly_article_counts :: "Metadata list \<Rightarrow> string \<Rightarrow> int \<Rightarrow> error + YearCount" where
  "get_yearly_article_counts metas archive yr =
     (if yr > 2007 then get_yearly_article_counts_new_id metas (math_token archive) yr
      else if yr = 2007 then
        (case get_yearly_article_counts_old_id metas (math_token archive) yr of
           Inl e \<Rightarrow> Inl e
         | Inr old_id_count \<Rightarrow>
             (case get_yearly_article_counts_new_id metas (math_token archive) yr of
                Inl e \<Rightarrow> Inl e
              | Inr new_id_count \<Rightarrow> combine_yearly_article_counts new_id_count old_id_count))
      else get_yearly_article_counts_old_id metas (math_token archive) yr)"

subsection \<open>Notions the statements use\<close>

text \<open>
  The digits a request stands for in a paper id: \<open>YYMM\<close>, or \<open>YY\<close> when the month is
  omitted (a month of 0 counts as omitted).
\<close>

definition period_digits :: "int \<Rightarrow> int option \<Rightarrow> string" where
  "period_digits y mo =
     (case mo of None \<Rightarrow> fmt02 (y mod 100)
      | Some m \<Rightarrow> if m = 0 then fmt02 (y mod 100) else fmt02 (y mod 100) @ fmt02 m)"

text \<open>A token the taxonomy knows: an archive id or a category id.\<close>

definition known_token :: "taxonomy \<Rightarrow> string \<Rightarrow> bool" where
  "known_token tax t = (t \<in> set (ARCHIVES tax) \<or> t \<in> set (map fst (CATEGORIES tax)))"

text \<open>
  A category name that resolution can return under its own name: it is not empty, it is a
  category of the taxonomy, and when it also names an archive, the taxonomy lists it in
  that archive (as it does for \<open>math-ph\<close>).
\<close>

definition resolvable :: "taxonomy \<Rightarrow> string \<Rightarrow> bool" where
  "resolvable tax c =
     (c \<noteq> [] \<and> c \<in> set (map fst (CATEGORIES tax))
      \<and> (c \<in> set (ARCHIVES tax) \<longrightarrow> (c, c) \<in> set (CATEGORIES tax)))"

text \<open>
  The category table agrees with the category strings: for every current metadata record
  with a first token, the rows of its document that are flagged primary carry that token,
  and one such row exists.
\<close>

definition categories_agree :: "database \<Rightarrow> bool" where
  "categories_agree db =
     (\<forall>m\<in>set (metadata db). is_current m = 1 \<longrightarrow>
        (case py_split (abs_categories m) of
           [] \<Rightarrow> True
         | pc # scs \<Rightarrow>
             (\<forall>r\<in>set (document_categories db).
                 dc_document_id r = document_id m \<and> dc_is_primary r \<longrightarrow> dc_category r = pc)
             \<and> (\<exists>r\<in>set (document_categories db).
                 dc_document_id r = document_id m \<and> dc_category r = pc \<and> dc_is_primary r)))"

text \<open>
  The precondition of the yearly totals: every month string of a query result reads as a
  number from 1 to 12, and no two rows read as the same number.
\<close>

definition month_values_ok :: "count_row list \<Rightarrow> bool" where
  "month_values_ok rows =
     ((\<forall>r\<in>set rows. case py_int (row_month r) of Inl e \<Rightarrow> False | Inr m \<Rightarrow> 1 \<le> m \<and> m \<le> 12)
      \<and> distinct (map (\<lambda>r. py_int (row_month r)) rows))"

text \<open>The \<open>MonthCount\<close> the merge builds for month \<open>i\<close>.\<close>

definition combined_month :: "YearCount \<Rightarrow> YearCount \<Rightarrow> int \<Rightarrow> MonthCount" where
  "combined_month yc1 yc2 i =
     \<lparr>mc_year = year yc1, month = i,
      new = new (by_month yc1 ! nat (i - 1)) + new (by_month yc2 ! nat (i - 1)),
      cross = cross (by_month yc1 ! nat (i - 1)) + cross (by_month yc2 ! nat (i - 1))\<rparr>"

text \<open>A \<open>YearCount\<close> of twelve months whose totals are the sums of its months.\<close>

definition conserved :: "YearCount \<Rightarrow> bool" where
  "conserved yc =
     (length (by_month yc) = 12
      \<and> sum_list (map new (by_month yc)) = new_count yc
      \<and> sum_list (map cross (by_month yc)) = cross_count yc)"

text \<open>
  The paper ids a month stands for: among the records that pass the era filter and are
  classified \<open>cls\<close>, those whose month string is \<open>mo\<close>, and those whose month string
  reads as the number \<open>k\<close>. No condition is put on \<open>is_current\<close>.
\<close>

definition month_string_papers ::
  "Metadata list \<Rightarrow> (Metadata \<Rightarrow> bool) \<Rightarrow> (Metadata \<Rightarrow> string) \<Rightarrow> string \<Rightarrow> string \<Rightarrow> string \<Rightarrow> string set" where
  "month_string_papers metas era month_of archive cls mo =
     set (map paper_id
            (filter (\<lambda>m. era m \<and> month_of m = mo
                         \<and> categorization_case archive (abs_categories m) = cls) metas))"

definition month_papers ::
  "Metadata list \<Rightarrow> (Metadata \<Rightarrow> bool) \<Rightarrow> (Metadata \<Rightarrow> string) \<Rightarrow> string \<Rightarrow> string \<Rightarrow> int \<Rightarrow> string set" where
  "month_papers metas era month_of archive cls k =
     set (map paper_id
            (filter (\<lambda>m. era m \<and> py_int (month_of m) = Inr k
                         \<and> categorization_case archive (abs_categories m) = cls) metas))"

text \<open>The same for the two eras, with the filter and the month of each query.\<close>

definition new_id_papers :: "Metadata list \<Rightarrow> string \<Rightarrow> int \<Rightarrow> string \<Rightarrow> int \<Rightarrow> string set" where
  "new_id_papers metas archive yr cls k =
     month_papers metas (\<lambda>m. startswith (paper_id m) (fmt02 (yr mod 100)))
       (\<lambda>m. sql_substr (paper_id m) 3 2) archive cls k"

definition old_id_papers :: "Metadata list \<Rightarrow> string \<Rightarrow> int \<Rightarrow> string \<Rightarrow> int \<Rightarrow> string set" where
  "old_id_papers metas archive yr cls k =
     month_papers metas (\<lambda>m. sql_like (''%/'' @ fmt02 (yr mod 100) @ ''%'') (paper_id m))
       (\<lambda>m. sql_substr (after_last_slash (paper_id m)) 3 2) archive cls k"

subsection \<open>A small store and taxonomy for concrete instances\<close>

text \<open>A metadata record with the given document id, paper id, category string and current flag.\<close>

definition mk_meta :: "int \<Rightarrow> string \<Rightarrow> string \<Rightarrow> int \<Rightarrow> Metadata" where
  "mk_meta did pid cats cur =
     \<lparr>document_id = did, paper_id = pid, version = 1, title = ''t'', authors = ''a'',
      abstract = ''x'', abs_categories = cats, comments = [], journal_ref = [],
      source_size = 10, source_flags = [], is_current = cur\<rparr>"

text \<open>A taxonomy with one alias pair, whose new name is an archive and a category at once.\<close>

definition ex_tax :: taxonomy where
  "ex_tax =
     \<lparr>ARCHIVES = [''cs'', ''math'', ''math-ph''],
      CATEGORIES = [(''cs.AI'', ''cs''), (''cs.LG'', ''cs''), (''math.MP'', ''math''),
                    (''math-ph'', ''math-ph'')],
      CATEGORY_ALIASES = [(''math.MP'', ''math-ph'')],
      ARCHIVES_SUBSUMED = []\<rparr>"

text \<open>Papers of March and April 2009 in \<open>cs.AI\<close> and \<open>cs.LG\<close>, primary or cross-listed.\<close>

definition ex_db :: database where
  "ex_db =
     \<lparr>documents =
        [\<lparr>doc_document_id = 1, doc_paper_id = ''0903.0002''\<rparr>,
         \<lparr>doc_document_id = 2, doc_paper_id = ''0903.0001''\<rparr>,
         \<lparr>doc_document_id = 3, doc_paper_id = ''0903.0003''\<rparr>,
         \<lparr>doc_document_id = 4, doc_paper_id = ''0904.0001''\<rparr>],
      document_categories =
        [\<lparr>dc_document_id = 1, dc_category = ''cs.LG'', dc_is_primary = True\<rparr>,
         \<lparr>dc_document_id = 1, dc_category = ''cs.AI'', dc_is_primary = False\<rparr>,
         \<lparr>dc_document_id = 2, dc_category = ''cs.AI'', dc_is_primary = True\<rparr>,
         \<lparr>dc_document_id = 2, dc_category = ''cs.LG'', dc_is_primary = False\<rparr>,
         \<lparr>dc_document_id = 3, dc_category = ''cs.AI'', dc_is_primary = True\<rparr>,
         \<lparr>dc_document_id = 4, dc_category = ''cs.AI'', dc_is_primary = True\<rparr>],
      metadata =
        [mk_meta 1 ''0903.0002'' ''cs.LG cs.AI'' 1,
         mk_meta 2 ''0903.0001'' ''cs.AI cs.LG'' 1,
         mk_meta 3 ''0903.0003'' ''cs.AI'' 1,
         mk_meta 4 ''0904.0001'' ''cs.AI'' 1]\<rparr>"

text \<open>A store whose one record has a category string of blanks.\<close>

definition ex_db_blank :: database where
  "ex_db_blank =
     \<lparr>documents = [\<lparr>doc_document_id = 1, doc_paper_id = ''0903.0001''\<rparr>],
      document_categories = [\<lparr>dc_document_id = 1, dc_category = ''cs.AI'', dc_is_primary = True\<rparr>],
      metadata = [mk_meta 1 ''0903.0001'' ''  '' 1]\<rparr>"

text \<open>A store whose category table names another primary category than the string does.\<close>

definition ex_db_mismatch :: database where
  "ex_db_mismatch =
     \<lparr>documents = [\<lparr>doc_document_id = 1, doc_paper_id = ''0903.0001''\<rparr>],
      document_categories = [\<lparr>dc_document_id = 1, dc_category = ''cs.AI'', dc_is_primary = True\<rparr>],
      metadata = [mk_meta 1 ''0903.0001'' ''cs.LG cs.AI'' 1]\<rparr>"

text \<open>Records of 2007 under both styles of paper id.\<close>

definition ex_metas :: "Metadata list" where
  "ex_metas =
     [mk_meta 1 ''0704.0001'' ''math.GT'' 1,
      mk_meta 2 ''math/0703001'' ''math.AG math.GT'' 1,
      mk_meta 3 ''0704.0002'' ''cs.AI math.GT'' 1,
      mk_meta 4 ''0712.0001'' ''math-ph'' 1,
      mk_meta 5 ''math/0703002'' ''hep-th math.AG'' 1]"

text \<open>Two yearly counts to merge.\<close>

definition ex_yc1 :: YearCount where
  "ex_yc1 = \<lparr>year = 2007, new_count = 3, cross_count = 1,
             by_month = map (\<lambda>i. \<lparr>mc_year = 2007, month = i,
                                  new = (if i = 4 then 3 else 0),
                                  cross = (if i = 5 then 1 else 0)\<rparr>) [1..12]\<rparr>"

definition ex_yc2 :: YearCount where
  "ex_yc2 = \<lparr>year = 2007, new_count = 2, cross_count = 4,
             by_month = map (\<lambda>i. \<lparr>mc_year = 2007, month = i,
                                  new = (if i = 4 then 2 else 0),
                                  cross = (if i = 1 then 4 else 0)\<rparr>) [1..12]\<rparr>"

text \<open>Two versions of one paper, the older not current, and a cross-listed record not current.\<close>

definition ex_versions :: "Metadata list" where
  "ex_versions =
     [mk_meta 1 ''0801.0001'' ''cs.AI'' 0,
      mk_meta 1 ''0801.0001'' ''cs.AI cs.LG'' 1,
      mk_meta 2 ''0801.0002'' ''cs.LG cs.AI'' 0,
      mk_meta 3 ''0802.0001'' ''cs.LG'' 1]"

declare dec.simps [simp del]

section \<open>Properties\<close>

subsection \<open>Errors of the listing query\<close>

lemma make_item_error: "make_item entry = Inl e \<Longrightarrow> e = IndexError"
  by (auto simp: make_item_def split: prod.splits list.splits)

lemma entries_loop_error: "entries_loop ns cs rows = Inl e \<Longrightarrow> e = IndexError"
  by (induction rows arbitrary: ns cs) (auto split: sum.splits if_splits dest: make_item_error)

lemma first_of_month_error: "first_of_month y m = Inl e \<Longrightarrow> e = ValueError"
  by (auto simp: first_of_month_def split: if_splits)

lemma get_articles_bad_request:
  "(get_articles_for_month db tax t y m skip show = Inl BadRequest) = (\<not> known_token tax t)"
  by (auto simp: get_articles_for_month_def all_possible_categories_def known_token_def
        entries_into_listing_items_def
      split: sum.splits prod.splits dest: entries_loop_error first_of_month_error)

text \<open>
  Claim C7. Resolving a token fails with \<open>BadRequest\<close> exactly when the token is neither
  an archive nor a category of the taxonomy; such a token never yields a list (so never an
  empty one), a known token always yields one, and \<open>get_articles_for_month\<close> fails with
  \<open>BadRequest\<close> for exactly the unknown tokens.
\<close>

theorem resolution_fails_iff_unknown:
  "(all_possible_categories tax t = Inl BadRequest) = (\<not> known_token tax t)
   \<and> ((\<exists>cats. all_possible_categories tax t = Inr cats) = known_token tax t)
   \<and> (get_articles_for_month db tax t y m skip show = Inl BadRequest) = (\<not> known_token tax t)"
  using get_articles_bad_request[of db tax t y m skip "show"]
  by (auto simp: all_possible_categories_def known_token_def)

theorem resolution_fails_iff_unknown_witness:
  "\<not> known_token ex_tax ''xx.ZZ''
   \<and> all_possible_categories ex_tax ''xx.ZZ'' = Inl BadRequest
   \<and> get_articles_for_month ex_db ex_tax ''xx.ZZ'' 2009 (Some 3) 0 10 = Inl BadRequest
   \<and> known_token ex_tax ''cs.AI''
   \<and> get_articles_for_month ex_db ex_tax ''cs.AI'' 2009 (Some 3) 0 10 \<noteq> Inl BadRequest"
proof -
  have u: "\<not> known_token ex_tax ''xx.ZZ''" by (simp add: known_token_def ex_tax_def)
  have k: "known_token ex_tax ''cs.AI''" by (simp add: known_token_def ex_tax_def)
  show ?thesis
    using u k resolution_fails_iff_unknown[of ex_tax "''xx.ZZ''" ex_db 2009 "Some 3" 0 10]
      resolution_fails_iff_unknown[of ex_tax "''cs.AI''" ex_db 2009 "Some 3" 0 10]
    by simp
qed

lemma make_item_Inl: "(make_item entry = Inl IndexError) = (py_split (abs_categories (fst entry)) = [])"
  by (auto simp: make_item_def split: prod.splits list.splits)

lemma entries_loop_Inl:
  "(entries_loop ns cs rows = Inl IndexError) = (\<exists>entry\<in>set rows. py_split (abs_categories (fst entry)) = [])"
proof (induction rows arbitrary: ns cs)
  case Nil
  show ?case by simp
next
  case (Cons r rows)
  show ?case
  proof (cases "make_item r")
    case (Inl e)
    then have "e = IndexError" by (rule make_item_error)
    with Inl show ?thesis using make_item_Inl[of r] by simp
  next
    case (Inr item)
    then have "py_split (abs_categories (fst r)) \<noteq> []" using make_item_Inl[of r] by auto
    with Inr show ?thesis by (simp add: Cons.IH)
  qed
qed

lemma split_from_Nil: "(split_from cur s = []) = (cur = [] \<and> (\<forall>c\<in>set s. is_space c))"
  by (induction cur s rule: split_from.induct) auto

lemma py_split_Nil: "(py_split s = []) = (\<forall>c\<in>set s. is_space c)"
  by (simp add: py_split_def split_from_Nil)

lemma result_rows_subset: "set (result_rows db cats y mo skip show) \<subseteq> set (joined_rows db cats y mo)"
proof -
  have "set (result_rows db cats y mo skip show) \<subseteq> set (order_rows (joined_rows db cats y mo))"
    unfolding result_rows_def
    by (meson set_take_subset set_drop_subset subset_trans)
  then show ?thesis by (simp add: order_rows_def)
qed

text \<open>
  Claim C9. Assembling listing items raises \<open>IndexError\<close> exactly when some row's
  category string splits into no token, and raises nothing else; for a known token
  \<open>get_articles_for_month\<close> raises \<open>IndexError\<close> exactly when such a row is on the
  requested page, so it does not when every joined current record has a token.
\<close>

theorem empty_categories_raise:
  "(entries_into_listing_items rows = Inl IndexError)
     = (\<exists>entry\<in>set rows. py_split (abs_categories (fst entry)) = [])
   \<and> (\<forall>e. entries_into_listing_items rows = Inl e \<longrightarrow> e = IndexError)
   \<and> (\<forall>cats. all_possible_categories tax t = Inr cats \<longrightarrow>
        (get_articles_for_month db tax t y mo skip show = Inl IndexError)
          = (\<exists>entry\<in>set (result_rows db cats y mo skip show).
               py_split (abs_categories (fst entry)) = []))
   \<and> (\<forall>cats. all_possible_categories tax t = Inr cats
          \<and> (\<forall>entry\<in>set (joined_rows db cats y mo). py_split (abs_categories (fst entry)) \<noteq> [])
        \<longrightarrow> get_articles_for_month db tax t y mo skip show \<noteq> Inl IndexError)"
proof (intro conjI allI impI)
  show "(entries_into_listing_items rows = Inl IndexError)
     = (\<exists>entry\<in>set rows. py_split (abs_categories (fst entry)) = [])"
    by (simp add: entries_into_listing_items_def entries_loop_Inl)
next
  fix e assume "entries_into_listing_items rows = Inl e"
  then show "e = IndexError"
    by (auto simp: entries_into_listing_items_def dest: entries_loop_error)
next
  fix cats assume a: "all_possible_categories tax t = Inr cats"
  show "(get_articles_for_month db tax t y mo skip show = Inl IndexError)
          = (\<exists>entry\<in>set (result_rows db cats y mo skip show).
               py_split (abs_categories (fst entry)) = [])"
    using entries_loop_Inl[of "[]" "[]" "result_rows db cats y mo skip show"]
    by (auto simp: get_articles_for_month_def a entries_into_listing_items_def
          split: sum.splits prod.splits dest: first_of_month_error)
next
  fix cats
  assume b: "all_possible_categories tax t = Inr cats
          \<and> (\<forall>entry\<in>set (joined_rows db cats y mo). py_split (abs_categories (fst entry)) \<noteq> [])"
  then have a: "all_possible_categories tax t = Inr cats" by (rule conjunct1)
  from b result_rows_subset[of db cats y mo skip "show"]
  have n: "\<not> (\<exists>entry\<in>set (result_rows db cats y mo skip show).
               py_split (abs_categories (fst entry)) = [])"
    by blast
  have "(get_articles_for_month db tax t y mo skip show = Inl IndexError)
          = (\<exists>entry\<in>set (result_rows db cats y mo skip show).
               py_split (abs_categories (fst entry)) = [])"
    using entries_loop_Inl[of "[]" "[]" "result_rows db cats y mo skip show"]
    by (auto simp: get_articles_for_month_def a entries_into_listing_items_def
          split: sum.splits prod.splits dest: first_of_month_error)
  with n show "get_articles_for_month db tax t y mo skip show \<noteq> Inl IndexError" by simp
qed

theorem empty_categories_raise_witness:
  "entries_into_listing_items [(mk_meta 1 ''0903.0001'' ''  '' 1, True)] = Inl IndexError
   \<and> entries_into_listing_items [(mk_meta 1 ''0903.0001'' [CHR 0xA0, CHR 0x85] 1, True)]
       = Inl IndexError
   \<and> get_articles_for_month ex_db_blank ex_tax ''cs.AI'' 2009 (Some 3) 0 10 = Inl IndexError"
proof -
  have s: "py_split (abs_categories (mk_meta 1 ''0903.0001'' ''  '' 1)) = []" by code_simp
  have n: "py_split (abs_categories (mk_meta 1 ''0903.0001'' [CHR 0xA0, CHR 0x85] 1)) = []"
    by code_simp
  have "entries_into_listing_items [(mk_meta 1 ''0903.0001'' [CHR 0xA0, CHR 0x85] 1, True)]
       = Inl IndexError"
    using n
      empty_categories_raise[of "[(mk_meta 1 ''0903.0001'' [CHR 0xA0, CHR 0x85] 1, True)]"
         ex_tax "''cs.AI''" ex_db_blank 2009 "Some 3" 0 10]
    by simp
  moreover
  have c: "all_possible_categories ex_tax ''cs.AI'' = Inr [''cs.AI'']" by code_simp
  have r: "result_rows ex_db_blank [''cs.AI''] 2009 (Some 3) 0 10 = [(mk_meta 1 ''0903.0001'' ''  '' 1, True)]"
    by code_simp
  have "entries_into_listing_items [(mk_meta 1 ''0903.0001'' ''  '' 1, True)] = Inl IndexError
     \<and> get_articles_for_month ex_db_blank ex_tax ''cs.AI'' 2009 (Some 3) 0 10 = Inl IndexError"
    using s c r
      empty_categories_raise[of "[(mk_meta 1 ''0903.0001'' ''  '' 1, True)]" ex_tax "''cs.AI''"
         ex_db_blank 2009 "Some 3" 0 10]
    by simp
  ultimately show ?thesis by simp
qed

lemma era_filter_zero: "era_filter y (Some 0) = era_filter y None"
  by (rule ext) (simp add: era_filter_def month_given_def)

lemma joined_rows_zero: "joined_rows db cats y (Some 0) = joined_rows db cats y None"
  by (simp add: joined_rows_def doc_ids_def era_filter_zero)

lemma result_rows_zero: "result_rows db cats y (Some 0) skip show = result_rows db cats y None skip show"
  by (simp add: result_rows_def joined_rows_zero)

text \<open>
  Claim C10. Month 0 is the yearly request: the result is the one of the request without a
  month, the era filter uses the two-digit year alone, and the date of \<open>pubdates\<close> is the
  first of January.
\<close>

theorem month_zero_is_yearly:
  "get_articles_for_month db tax t y (Some 0) skip show
     = get_articles_for_month db tax t y None skip show
   \<and> era_filter y (Some 0) pid =
       (if y > 2007 then startswith pid (fmt02 (y mod 100))
        else if y < 2007 then sql_like (''%/'' @ fmt02 (y mod 100) @ ''%'') pid
        else startswith pid (fmt02 (y mod 100)) \<or> sql_like (''%/'' @ fmt02 (y mod 100) @ ''%'') pid)
   \<and> (\<forall>l. get_articles_for_month db tax t y (Some 0) skip show = Inr l \<longrightarrow>
          pubdates l = [((y, 1, 1), 1)])"
proof (intro conjI allI impI)
  show "get_articles_for_month db tax t y (Some 0) skip show
     = get_articles_for_month db tax t y None skip show"
    by (simp add: get_articles_for_month_def joined_rows_zero result_rows_zero month_given_def
          split: sum.splits)
next
  show "era_filter y (Some 0) pid =
       (if y > 2007 then startswith pid (fmt02 (y mod 100))
        else if y < 2007 then sql_like (''%/'' @ fmt02 (y mod 100) @ ''%'') pid
        else startswith pid (fmt02 (y mod 100)) \<or> sql_like (''%/'' @ fmt02 (y mod 100) @ ''%'') pid)"
    by (simp add: era_filter_def month_given_def)
next
  fix l assume "get_articles_for_month db tax t y (Some 0) skip show = Inr l"
  then show "pubdates l = [((y, 1, 1), 1)]"
    by (auto simp: get_articles_for_month_def month_given_def first_of_month_def
          split: sum.splits prod.splits if_splits)
qed

theorem month_zero_is_yearly_witness:
  "get_articles_for_month ex_db ex_tax ''cs.AI'' 2009 (Some 0) 0 10
     = get_articles_for_month ex_db ex_tax ''cs.AI'' 2009 None 0 10
   \<and> \<not> isl (get_articles_for_month ex_db ex_tax ''cs.AI'' 2009 (Some 0) 0 10)
   \<and> pubdates (projr (get_articles_for_month ex_db ex_tax ''cs.AI'' 2009 (Some 0) 0 10))
        = [((2009, 1, 1), 1)]"
proof -
  have "\<not> isl (get_articles_for_month ex_db ex_tax ''cs.AI'' 2009 (Some 0) 0 10)" by code_simp
  then obtain l where l: "get_articles_for_month ex_db ex_tax ''cs.AI'' 2009 (Some 0) 0 10 = Inr l"
    by (cases "get_articles_for_month ex_db ex_tax ''cs.AI'' 2009 (Some 0) 0 10") auto
  show ?thesis
    using l month_zero_is_yearly[of ex_db ex_tax "''cs.AI''" 2009 0 10 "[]"]
    by simp
qed

subsection \<open>The era filter\<close>

lemma sql_like_percent: "sql_like ''%'' s"
  by (induction s) auto

lemma sql_like_prefix:
  "CHR ''%'' \<notin> set p \<Longrightarrow> CHR ''_'' \<notin> set p \<Longrightarrow> sql_like (p @ ''%'') s = (\<exists>post. s = p @ post)"
proof (induction p arbitrary: s)
  case Nil
  then show ?case using sql_like_percent by simp
next
  case (Cons a p)
  then show ?case by (cases s) auto
qed

lemma sql_like_infix:
  assumes "CHR ''%'' \<notin> set p" "CHR ''_'' \<notin> set p"
  shows "sql_like (CHR ''%'' # p @ ''%'') s = (\<exists>pre post. s = pre @ p @ post)"
proof (induction s)
  case Nil
  have "sql_like (p @ ''%'') [] = (p = [])"
    using sql_like_prefix[OF assms, of "[]"] by auto
  then show ?case by simp
next
  case (Cons c cs)
  have "sql_like (CHR ''%'' # p @ ''%'') (c # cs)
        = (sql_like (p @ ''%'') (c # cs) \<or> sql_like (CHR ''%'' # p @ ''%'') cs)"
    by simp
  also have "\<dots> = ((\<exists>post. c # cs = p @ post) \<or> (\<exists>pre post. cs = pre @ p @ post))"
    by (simp only: sql_like_prefix[OF assms] Cons.IH)
  also have "\<dots> = (\<exists>pre post. c # cs = pre @ p @ post)"
  proof
    assume "(\<exists>post. c # cs = p @ post) \<or> (\<exists>pre post. cs = pre @ p @ post)"
    then show "\<exists>pre post. c # cs = pre @ p @ post"
    proof
      assume "\<exists>post. c # cs = p @ post"
      then obtain post where "c # cs = [] @ p @ post" by auto
      then show ?thesis by blast
    next
      assume "\<exists>pre post. cs = pre @ p @ post"
      then obtain pre post where "c # cs = (c # pre) @ p @ post" by auto
      then show ?thesis by blast
    qed
  next
    assume "\<exists>pre post. c # cs = pre @ p @ post"
    then obtain pre post where e: "c # cs = pre @ p @ post" by blast
    show "(\<exists>post. c # cs = p @ post) \<or> (\<exists>pre post. cs = pre @ p @ post)"
    proof (cases pre)
      case Nil
      with e show ?thesis by auto
    next
      case (Cons a pre')
      with e have "cs = pre' @ p @ post" by simp
      then show ?thesis by blast
    qed
  qed
  finally show ?case .
qed

lemma digit_char_is_digit: "d < 10 \<Longrightarrow> is_digit (digit_char d)"
  unfolding is_digit_def digit_char_def by (rule nth_mem) simp

lemma dec_digits: "\<forall>c\<in>set (dec n). is_digit c"
proof (induction n rule: dec.induct)
  case (1 n)
  show ?case
  proof (cases "n < 10")
    case True
    then show ?thesis by (subst dec.simps) (simp add: digit_char_is_digit)
  next
    case False
    then show ?thesis using 1 by (subst dec.simps) (simp add: digit_char_is_digit)
  qed
qed

lemma is_digit_not_wild: "is_digit c \<Longrightarrow> c \<noteq> CHR ''%'' \<and> c \<noteq> CHR ''_''"
  by (auto simp: is_digit_def)

lemma is_digit_zero: "is_digit (CHR ''0'')"
  by (simp add: is_digit_def)

lemma fmt02_chars: "c \<in> set (fmt02 n) \<Longrightarrow> is_digit c \<or> c = CHR ''-''"
  using dec_digits by (auto simp: fmt02_def is_digit_zero split: if_splits)

lemma fmt02_no_wild: "CHR ''%'' \<notin> set (fmt02 n)" "CHR ''_'' \<notin> set (fmt02 n)"
  using fmt02_chars[of "CHR ''%''" n] fmt02_chars[of "CHR ''_''" n] is_digit_not_wild
  by blast+

lemma dec_small: "n < 10 \<Longrightarrow> dec n = [digit_char n]"
  by (subst dec.simps) simp

lemma dec_two: "10 \<le> n \<Longrightarrow> n < 100 \<Longrightarrow> dec n = [digit_char (n div 10), digit_char (n mod 10)]"
  by (subst dec.simps) (simp add: dec_small)

lemma fmt02_two_digits:
  assumes "0 \<le> n" "n < 100"
  shows "fmt02 n = [digit_char (nat n div 10), digit_char (nat n mod 10)]"
proof (cases "n < 10")
  case True
  with assms have "dec (nat n) = [digit_char (nat n)]" by (intro dec_small) simp
  moreover have "digit_char 0 = CHR ''0''" by (simp add: digit_char_def)
  ultimately show ?thesis using True assms by (simp add: fmt02_def)
next
  case False
  with assms have "dec (nat n) = [digit_char (nat n div 10), digit_char (nat n mod 10)]"
    by (intro dec_two) simp_all
  then show ?thesis using False assms by (simp add: fmt02_def)
qed

lemma period_digits_no_wild: "CHR ''%'' \<notin> set (period_digits y mo)" "CHR ''_'' \<notin> set (period_digits y mo)"
  by (auto simp: period_digits_def fmt02_no_wild split: option.splits)

lemma startswith_period:
  "startswith pid (period_digits y mo) = (\<exists>post. pid = period_digits y mo @ post)"
  by (simp add: startswith_def sql_like_prefix period_digits_no_wild)

lemma like_slash_period:
  "sql_like (''%/'' @ period_digits y mo @ ''%'') pid
     = (\<exists>pre post. pid = pre @ ''/'' @ period_digits y mo @ post)"
proof -
  have "sql_like (CHR ''%'' # (''/'' @ period_digits y mo) @ ''%'') pid
        = (\<exists>pre post. pid = pre @ (''/'' @ period_digits y mo) @ post)"
    by (rule sql_like_infix) (simp_all add: period_digits_no_wild)
  then show ?thesis by simp
qed

lemma era_filter_period:
  "era_filter y mo pid =
     (if y > 2007 then startswith pid (period_digits y mo)
      else if y < 2007 then sql_like (''%/'' @ period_digits y mo @ ''%'') pid
      else startswith pid (period_digits y mo) \<or> sql_like (''%/'' @ period_digits y mo @ ''%'') pid)"
  by (cases mo) (simp_all add: era_filter_def month_given_def period_digits_def)

text \<open>
  Claim C2. The era filter accepts a paper id, in 2007, when it starts with the digits of the
  period or contains a slash followed by them; after 2007 only when it starts with them;
  before 2007 only when it contains the slash followed by them. The digits are the
  zero-padded \<open>YYMM\<close>, and \<open>YY\<close> alone for a request without a month (or with month
  0); \<open>YY\<close> always has two characters.
\<close>

theorem era_filter_by_year:
  "era_filter y mo pid =
     (if y = 2007 then (\<exists>post. pid = period_digits y mo @ post)
                       \<or> (\<exists>pre post. pid = pre @ ''/'' @ period_digits y mo @ post)
      else if y > 2007 then (\<exists>post. pid = period_digits y mo @ post)
      else (\<exists>pre post. pid = pre @ ''/'' @ period_digits y mo @ post))
   \<and> length (fmt02 (y mod 100)) = 2"
  unfolding era_filter_period startswith_period like_slash_period
  by (auto simp: fmt02_two_digits)

theorem era_filter_by_year_witness:
  "era_filter 2007 (Some 3) ''0703.0001'' \<and> era_filter 2007 (Some 3) ''hep-th/0703001''
   \<and> era_filter 2008 (Some 3) ''0803.0001'' \<and> \<not> era_filter 2008 (Some 3) ''hep-th/0803001''
   \<and> era_filter 2006 (Some 3) ''hep-th/0603001'' \<and> \<not> era_filter 2006 (Some 3) ''0603.0001''
   \<and> era_filter 2008 None ''0811.0001''"
proof -
  have p: "period_digits 2007 (Some 3) = ''0703''" "period_digits 2008 (Some 3) = ''0803''"
    "period_digits 2006 (Some 3) = ''0603''" "period_digits 2008 None = ''08''"
    by code_simp+
  have o7: "\<exists>pre post. ''hep-th/0703001'' = pre @ ''/'' @ ''0703'' @ post"
    by (rule exI[of _ "''hep-th''"]) simp
  have o6: "\<exists>pre post. ''hep-th/0603001'' = pre @ ''/'' @ ''0603'' @ post"
    by (rule exI[of _ "''hep-th''"]) simp
  have b: "\<not> (\<exists>pre post. ''0603.0001'' = pre @ ''/'' @ ''0603'' @ post)"
  proof
    assume "\<exists>pre post. ''0603.0001'' = pre @ ''/'' @ ''0603'' @ post"
    then obtain pre post where "''0603.0001'' = pre @ ''/'' @ ''0603'' @ post" by blast
    then have "CHR ''/'' \<in> set ''0603.0001''" by (metis append_Cons in_set_conv_decomp)
    then show False by simp
  qed
  have e1: "era_filter 2007 (Some 3) ''0703.0001''"
    using era_filter_by_year[of 2007 "Some 3" "''0703.0001''"] by (simp add: p)
  have e2: "era_filter 2007 (Some 3) ''hep-th/0703001''"
    using era_filter_by_year[of 2007 "Some 3" "''hep-th/0703001''"] o7 by (simp only: p if_True simp_thms)
  have e3: "era_filter 2008 (Some 3) ''0803.0001''"
    using era_filter_by_year[of 2008 "Some 3" "''0803.0001''"] by (simp add: p)
  have e4: "\<not> era_filter 2008 (Some 3) ''hep-th/0803001''"
    using era_filter_by_year[of 2008 "Some 3" "''hep-th/0803001''"] by (simp add: p)
  have e5: "era_filter 2006 (Some 3) ''hep-th/0603001''"
    using era_filter_by_year[of 2006 "Some 3" "''hep-th/0603001''"] o6 by (simp add: p del: append.simps)
  have e6: "\<not> era_filter 2006 (Some 3) ''0603.0001''"
    using era_filter_by_year[of 2006 "Some 3" "''0603.0001''"] b by (simp add: p del: append.simps)
  have e7: "era_filter 2008 None ''0811.0001''"
    using era_filter_by_year[of 2008 None "''0811.0001''"] by (simp add: p)
  from e1 e2 e3 e4 e5 e6 e7 show ?thesis by blast
qed

subsection \<open>Yearly counts: merge and totals\<close>

lemma py_index_in_range: "0 \<le> i \<Longrightarrow> i < int n \<Longrightarrow> py_index n i = Inr (nat i)"
  by (simp add: py_index_def)

lemma combine_loop_ok:
  "\<forall>i\<in>set js. 1 \<le> i \<and> i \<le> int (length (by_month yc1)) \<and> i \<le> int (length (by_month yc2))
   \<Longrightarrow> combine_loop yc1 yc2 months js = Inr (months @ map (combined_month yc1 yc2) js)"
proof (induction js arbitrary: months)
  case Nil
  show ?case by simp
next
  case (Cons j js)
  then have j: "0 \<le> j - 1" "j - 1 < int (length (by_month yc1))" "j - 1 < int (length (by_month yc2))"
    by auto
  have "combine_loop yc1 yc2 (months @ [combined_month yc1 yc2 j]) js
        = Inr ((months @ [combined_month yc1 yc2 j]) @ map (combined_month yc1 yc2) js)"
    using Cons.prems by (intro Cons.IH) simp
  then show ?case
    by (simp add: py_index_in_range[OF j(1) j(2)] py_index_in_range[OF j(1) j(3)]
          combined_month_def)
qed

lemma combine_ok:
  assumes "12 \<le> length (by_month yc1)" "12 \<le> length (by_month yc2)"
  shows "combine_yearly_article_counts yc1 yc2 =
           Inr \<lparr>year = year yc1, new_count = new_count yc1 + new_count yc2,
                cross_count = cross_count yc1 + cross_count yc2,
                by_month = map (combined_month yc1 yc2) [1..12]\<rparr>"
proof -
  have "combine_loop yc1 yc2 [] [1..12] = Inr ([] @ map (combined_month yc1 yc2) [1..12])"
    using assms by (intro combine_loop_ok) auto
  then show ?thesis by (simp add: combine_yearly_article_counts_def)
qed

text \<open>
  Claim C5. Merging two \<open>YearCount\<close>s (each with its twelve months, or more) succeeds; the
  result carries the first operand's year, the sums of the two totals, and twelve months,
  each with the sums of the operands' new and cross values of that month.
\<close>

theorem combine_is_pairwise_sum:
  assumes "12 \<le> length (by_month yc1)" "12 \<le> length (by_month yc2)"
  shows "\<exists>yc. combine_yearly_article_counts yc1 yc2 = Inr yc
           \<and> year yc = year yc1
           \<and> new_count yc = new_count yc1 + new_count yc2
           \<and> cross_count yc = cross_count yc1 + cross_count yc2
           \<and> length (by_month yc) = 12
           \<and> (\<forall>k<12. new (by_month yc ! k) = new (by_month yc1 ! k) + new (by_month yc2 ! k)
                    \<and> cross (by_month yc ! k) = cross (by_month yc1 ! k) + cross (by_month yc2 ! k)
                    \<and> month (by_month yc ! k) = int k + 1
                    \<and> mc_year (by_month yc ! k) = year yc1)"
proof -
  have nth: "map (combined_month yc1 yc2) [1..12] ! k = combined_month yc1 yc2 (int k + 1)"
    if "k < 12" for k
    using that by (simp add: add.commute)
  let ?yc = "\<lparr>year = year yc1, new_count = new_count yc1 + new_count yc2,
                cross_count = cross_count yc1 + cross_count yc2,
                by_month = map (combined_month yc1 yc2) [1..12]\<rparr>"
  have "combine_yearly_article_counts yc1 yc2 = Inr ?yc" by (rule combine_ok[OF assms])
  then show ?thesis
    by (intro exI[of _ ?yc]) (simp add: nth combined_month_def)
qed

theorem combine_is_pairwise_sum_witness:
  "\<not> isl (combine_yearly_article_counts ex_yc1 ex_yc2)
   \<and> year (projr (combine_yearly_article_counts ex_yc1 ex_yc2)) = 2007
   \<and> new_count (projr (combine_yearly_article_counts ex_yc1 ex_yc2)) = 5
   \<and> new (by_month (projr (combine_yearly_article_counts ex_yc1 ex_yc2)) ! 3) = 5
   \<and> cross (by_month (projr (combine_yearly_article_counts ex_yc1 ex_yc2)) ! 0) = 4"
proof -
  have l: "12 \<le> length (by_month ex_yc1)" "12 \<le> length (by_month ex_yc2)"
    by (simp_all add: ex_yc1_def ex_yc2_def)
  have v: "year ex_yc1 = 2007" "new_count ex_yc1 + new_count ex_yc2 = 5"
    "new (by_month ex_yc1 ! 3) + new (by_month ex_yc2 ! 3) = 5"
    "cross (by_month ex_yc1 ! 0) + cross (by_month ex_yc2 ! 0) = 4"
    by (simp_all add: ex_yc1_def ex_yc2_def)
  from combine_is_pairwise_sum[OF l] obtain yc where
    yc: "combine_yearly_article_counts ex_yc1 ex_yc2 = Inr yc" "year yc = year ex_yc1"
      "new_count yc = new_count ex_yc1 + new_count ex_yc2"
      "\<forall>k<12. new (by_month yc ! k) = new (by_month ex_yc1 ! k) + new (by_month ex_yc2 ! k)
            \<and> cross (by_month yc ! k) = cross (by_month ex_yc1 ! k) + cross (by_month ex_yc2 ! k)
            \<and> month (by_month yc ! k) = int k + 1
            \<and> mc_year (by_month yc ! k) = year ex_yc1"
    by blast
  from yc(4) have "new (by_month yc ! 3) = new (by_month ex_yc1 ! 3) + new (by_month ex_yc2 ! 3)"
    "cross (by_month yc ! 0) = cross (by_month ex_yc1 ! 0) + cross (by_month ex_yc2 ! 0)"
    by simp_all
  with yc(1,2,3) v show ?thesis by simp
qed

lemma sum_list_update_int:
  "i < length xs \<Longrightarrow> sum_list (xs[i := v]) = sum_list xs - xs ! i + (v::int)"
proof (induction xs arbitrary: i)
  case Nil
  then show ?case by simp
next
  case (Cons x xs)
  then show ?case by (cases i) auto
qed

lemma sum_map_update:
  fixes f :: "'a \<Rightarrow> int"
  assumes "i < length xs"
  shows "sum_list (map f (xs[i := v])) = sum_list (map f xs) - f (xs ! i) + f v"
  using assms sum_list_update_int[of i "map f xs" "f v"] by (simp add: map_update)

lemma process_loop_sum:
  assumes "length ml = 12"
    and "\<forall>r\<in>set rows. \<exists>m. py_int (row_month r) = Inr m \<and> 1 \<le> m \<and> m \<le> 12"
    and "distinct (map (\<lambda>r. py_int (row_month r)) rows)"
    and "\<forall>r\<in>set rows. \<forall>m. py_int (row_month r) = Inr m \<longrightarrow>
           new (ml ! nat (m - 1)) = 0 \<and> cross (ml ! nat (m - 1)) = 0"
  shows "\<exists>ml'. process_loop ml nt ct rows
             = Inr (ml', nt + sum_list (map count_new rows), ct + sum_list (map count_cross rows))
           \<and> length ml' = 12
           \<and> sum_list (map new ml') = sum_list (map new ml) + sum_list (map count_new rows)
           \<and> sum_list (map cross ml') = sum_list (map cross ml) + sum_list (map count_cross rows)"
  using assms
proof (induction rows arbitrary: ml nt ct)
  case Nil
  then show ?case by simp
next
  case (Cons e rows)
  from Cons.prems(2) obtain m where m: "py_int (row_month e) = Inr m" "1 \<le> m" "m \<le> 12"
    by auto
  define i where "i = nat (m - 1)"
  have i: "i < 12" using m by (simp add: i_def)
  have idx: "py_index (length ml) (m - 1) = Inr i"
    using m Cons.prems(1) by (simp add: py_index_def i_def)
  define ml2 where "ml2 = ml[i := (ml ! i)\<lparr>new := count_new e, cross := count_cross e\<rparr>]"
  have zero: "new (ml ! i) = 0" "cross (ml ! i) = 0"
    using Cons.prems(4) m(1) by (auto simp: i_def)
  have len2: "length ml2 = 12" using Cons.prems(1) by (simp add: ml2_def)
  have s_new: "sum_list (map new ml2) = sum_list (map new ml) + count_new e"
    unfolding ml2_def using i Cons.prems(1) zero by (simp add: sum_map_update)
  have s_cross: "sum_list (map cross ml2) = sum_list (map cross ml) + count_cross e"
    unfolding ml2_def using i Cons.prems(1) zero by (simp add: sum_map_update)
  have rest_zero: "\<forall>r\<in>set rows. \<forall>m'. py_int (row_month r) = Inr m' \<longrightarrow>
           new (ml2 ! nat (m' - 1)) = 0 \<and> cross (ml2 ! nat (m' - 1)) = 0"
  proof (intro ballI allI impI)
    fix r m' assume r: "r \<in> set rows" and m': "py_int (row_month r) = Inr m'"
    from Cons.prems(3) have "py_int (row_month e) \<notin> set (map (\<lambda>r. py_int (row_month r)) rows)"
      by simp
    moreover from r have "py_int (row_month r) \<in> set (map (\<lambda>r. py_int (row_month r)) rows)"
      by simp
    ultimately have "py_int (row_month r) \<noteq> py_int (row_month e)" by metis
    with m m' have ne: "m' \<noteq> m" by auto
    from Cons.prems(2) r m' have "1 \<le> m'" "m' \<le> 12" by auto
    with ne m have "nat (m' - 1) \<noteq> i" by (simp add: i_def)
    then have "ml2 ! nat (m' - 1) = ml ! nat (m' - 1)" by (simp add: ml2_def)
    moreover have "new (ml ! nat (m' - 1)) = 0 \<and> cross (ml ! nat (m' - 1)) = 0"
      using Cons.prems(4) r m' by auto
    ultimately show "new (ml2 ! nat (m' - 1)) = 0 \<and> cross (ml2 ! nat (m' - 1)) = 0" by simp
  qed
  have "\<exists>ml'. process_loop ml2 (nt + count_new e) (ct + count_cross e) rows
             = Inr (ml', (nt + count_new e) + sum_list (map count_new rows),
                    (ct + count_cross e) + sum_list (map count_cross rows))
           \<and> length ml' = 12
           \<and> sum_list (map new ml') = sum_list (map new ml2) + sum_list (map count_new rows)
           \<and> sum_list (map cross ml') = sum_list (map cross ml2) + sum_list (map count_cross rows)"
    using Cons.prems(2,3) len2 rest_zero by (intro Cons.IH) auto
  then obtain ml' where ml': "process_loop ml2 (nt + count_new e) (ct + count_cross e) rows
             = Inr (ml', (nt + count_new e) + sum_list (map count_new rows),
                    (ct + count_cross e) + sum_list (map count_cross rows))"
      "length ml' = 12"
      "sum_list (map new ml') = sum_list (map new ml2) + sum_list (map count_new rows)"
      "sum_list (map cross ml') = sum_list (map cross ml2) + sum_list (map count_cross rows)"
    by blast
  have "process_loop ml nt ct (e # rows)
          = process_loop ml2 (nt + count_new e) (ct + count_cross e) rows"
    by (simp add: m(1) idx ml2_def)
  with ml' s_new s_cross show ?case by (simp add: add.assoc)
qed

lemma month_values_okD:
  assumes "month_values_ok rows"
  shows "\<forall>r\<in>set rows. \<exists>m. py_int (row_month r) = Inr m \<and> 1 \<le> m \<and> m \<le> 12"
    and "distinct (map (\<lambda>r. py_int (row_month r)) rows)"
proof -
  show "\<forall>r\<in>set rows. \<exists>m. py_int (row_month r) = Inr m \<and> 1 \<le> m \<and> m \<le> 12"
  proof
    fix r assume "r \<in> set rows"
    with assms have "case py_int (row_month r) of Inl e \<Rightarrow> False | Inr m \<Rightarrow> 1 \<le> m \<and> m \<le> 12"
      by (simp add: month_values_ok_def)
    then show "\<exists>m. py_int (row_month r) = Inr m \<and> 1 \<le> m \<and> m \<le> 12"
      by (cases "py_int (row_month r)") simp_all
  qed
  show "distinct (map (\<lambda>r. py_int (row_month r)) rows)"
    using assms by (simp add: month_values_ok_def)
qed

lemma process_conserved:
  assumes "month_values_ok rows"
  shows "\<exists>yc. process_yearly_article_counts rows yr = Inr yc \<and> conserved yc"
proof -
  let ?ml = "map (\<lambda>i. \<lparr>mc_year = yr, month = i, new = 0, cross = 0\<rparr>) [1..12]"
  have z: "new (?ml ! k) = 0 \<and> cross (?ml ! k) = 0" if "k < 12" for k
    using that by simp
  have zs: "sum_list (map new ?ml) = 0" "sum_list (map cross ?ml) = 0"
    by (simp_all add: comp_def)
  have "\<exists>ml'. process_loop ?ml 0 0 rows
             = Inr (ml', 0 + sum_list (map count_new rows), 0 + sum_list (map count_cross rows))
           \<and> length ml' = 12
           \<and> sum_list (map new ml') = sum_list (map new ?ml) + sum_list (map count_new rows)
           \<and> sum_list (map cross ml') = sum_list (map cross ?ml) + sum_list (map count_cross rows)"
  proof (rule process_loop_sum)
    show "length ?ml = 12" by simp
    show "\<forall>r\<in>set rows. \<exists>m. py_int (row_month r) = Inr m \<and> 1 \<le> m \<and> m \<le> 12"
      using month_values_okD(1)[OF assms] .
    show "distinct (map (\<lambda>r. py_int (row_month r)) rows)"
      using month_values_okD(2)[OF assms] .
    show "\<forall>r\<in>set rows. \<forall>m. py_int (row_month r) = Inr m \<longrightarrow>
           new (?ml ! nat (m - 1)) = 0 \<and> cross (?ml ! nat (m - 1)) = 0"
    proof (intro ballI allI impI)
      fix r m assume "r \<in> set rows" "py_int (row_month r) = Inr m"
      with month_values_okD(1)[OF assms] have "1 \<le> m" "m \<le> 12" by auto
      then have "nat (m - 1) < 12" by simp
      then show "new (?ml ! nat (m - 1)) = 0 \<and> cross (?ml ! nat (m - 1)) = 0" by (rule z)
    qed
  qed
  then show ?thesis
    unfolding zs by (auto simp: process_yearly_article_counts_def conserved_def)
qed

lemma nths_upto_12:
  assumes "length xs = 12"
  shows "map (\<lambda>i. xs ! nat (i - 1)) [1..12] = xs"
  using assms by (intro nth_equalityI) simp_all

lemma combine_conserved:
  assumes "conserved yc1" "conserved yc2"
  shows "\<exists>yc. combine_yearly_article_counts yc1 yc2 = Inr yc \<and> conserved yc"
proof -
  have l: "length (by_month yc1) = 12" "length (by_month yc2) = 12"
    using assms by (simp_all add: conserved_def)
  have c: "combine_yearly_article_counts yc1 yc2 =
           Inr \<lparr>year = year yc1, new_count = new_count yc1 + new_count yc2,
                cross_count = cross_count yc1 + cross_count yc2,
                by_month = map (combined_month yc1 yc2) [1..12]\<rparr>"
    using l by (intro combine_ok) simp_all
  have "sum_list (map new (map (combined_month yc1 yc2) [1..12]))
        = sum_list (map (\<lambda>i. new (by_month yc1 ! nat (i - 1)) + new (by_month yc2 ! nat (i - 1))) [1..12])"
    by (simp only: map_map comp_def combined_month_def MonthCount.simps)
  also have "\<dots> = sum_list (map new (map (\<lambda>i. by_month yc1 ! nat (i - 1)) [1..12]))
                 + sum_list (map new (map (\<lambda>i. by_month yc2 ! nat (i - 1)) [1..12]))"
    by (simp only: map_map comp_def sum_list_addf)
  also have "\<dots> = new_count yc1 + new_count yc2"
    using assms by (simp only: nths_upto_12[OF l(1)] nths_upto_12[OF l(2)] conserved_def)
  finally have n: "sum_list (map new (map (combined_month yc1 yc2) [1..12]))
        = new_count yc1 + new_count yc2" .
  have "sum_list (map cross (map (combined_month yc1 yc2) [1..12]))
        = sum_list (map (\<lambda>i. cross (by_month yc1 ! nat (i - 1)) + cross (by_month yc2 ! nat (i - 1))) [1..12])"
    by (simp only: map_map comp_def combined_month_def MonthCount.simps)
  also have "\<dots> = sum_list (map cross (map (\<lambda>i. by_month yc1 ! nat (i - 1)) [1..12]))
                 + sum_list (map cross (map (\<lambda>i. by_month yc2 ! nat (i - 1)) [1..12]))"
    by (simp only: map_map comp_def sum_list_addf)
  also have "\<dots> = cross_count yc1 + cross_count yc2"
    using assms by (simp only: nths_upto_12[OF l(1)] nths_upto_12[OF l(2)] conserved_def)
  finally have x: "sum_list (map cross (map (combined_month yc1 yc2) [1..12]))
        = cross_count yc1 + cross_count yc2" .
  show ?thesis
    unfolding c using n x by (simp add: conserved_def)
qed

text \<open>
  Claim C6. When the month values of the query results are numbers from 1 to 12, distinct
  within each result, \<open>get_yearly_article_counts\<close> returns a \<open>YearCount\<close> of twelve
  months whose new values sum to its total new and whose cross values sum to its total
  cross, for a single era as for the merge of 2007.
\<close>

theorem yearly_totals_are_month_sums:
  assumes "2007 \<le> yr \<longrightarrow> month_values_ok (count_query_new metas (math_token archive) yr)"
    and "yr \<le> 2007 \<longrightarrow> month_values_ok (count_query_old metas (math_token archive) yr)"
  shows "\<exists>yc. get_yearly_article_counts metas archive yr = Inr yc
           \<and> length (by_month yc) = 12
           \<and> sum_list (map new (by_month yc)) = new_count yc
           \<and> sum_list (map cross (by_month yc)) = cross_count yc"
proof -
  have "\<exists>yc. get_yearly_article_counts metas archive yr = Inr yc \<and> conserved yc"
  proof (cases "yr > 2007")
    case True
    then show ?thesis
      using assms(1) process_conserved
      by (simp add: get_yearly_article_counts_def get_yearly_article_counts_new_id_def)
  next
    case False
    show ?thesis
    proof (cases "yr = 2007")
      case True
      obtain o1 where o1: "get_yearly_article_counts_old_id metas (math_token archive) yr = Inr o1"
          "conserved o1"
        using assms(2) True process_conserved
        unfolding get_yearly_article_counts_old_id_def by fastforce
      obtain n1 where n1: "get_yearly_article_counts_new_id metas (math_token archive) yr = Inr n1"
          "conserved n1"
        using assms(1) True process_conserved
        unfolding get_yearly_article_counts_new_id_def by fastforce
      from combine_conserved[OF n1(2) o1(2)] show ?thesis
        using True o1(1) n1(1) by (simp add: get_yearly_article_counts_def)
    next
      case False
      with \<open>\<not> yr > 2007\<close> have "yr < 2007" by simp
      then show ?thesis
        using assms(2) process_conserved
        by (simp add: get_yearly_article_counts_def get_yearly_article_counts_old_id_def)
    qed
  qed
  then show ?thesis by (auto simp: conserved_def)
qed

theorem yearly_totals_are_month_sums_witness:
  "\<not> isl (get_yearly_article_counts ex_metas ''math'' 2007)
   \<and> sum_list (map new (by_month (projr (get_yearly_article_counts ex_metas ''math'' 2007))))
       = new_count (projr (get_yearly_article_counts ex_metas ''math'' 2007))
   \<and> sum_list (map cross (by_month (projr (get_yearly_article_counts ex_metas ''math'' 2007))))
       = cross_count (projr (get_yearly_article_counts ex_metas ''math'' 2007))
   \<and> new_count (projr (get_yearly_article_counts ex_metas ''math'' 2007)) = 2
   \<and> cross_count (projr (get_yearly_article_counts ex_metas ''math'' 2007)) = 2"
proof -
  have n: "month_values_ok (count_query_new ex_metas (math_token ''math'') 2007)" by code_simp
  have o: "month_values_ok (count_query_old ex_metas (math_token ''math'') 2007)" by code_simp
  have t: "new_count (projr (get_yearly_article_counts ex_metas ''math'' 2007)) = 2"
    "cross_count (projr (get_yearly_article_counts ex_metas ''math'' 2007)) = 2"
    by code_simp+
  from yearly_totals_are_month_sums[of 2007 ex_metas "''math''"] n o
  obtain yc where "get_yearly_article_counts ex_metas ''math'' 2007 = Inr yc"
    "sum_list (map new (by_month yc)) = new_count yc"
    "sum_list (map cross (by_month yc)) = cross_count yc"
    by blast
  with t show ?thesis by simp
qed

subsection \<open>Yearly counts and the current flag\<close>

lemma count_distinct_flags:
  "count_distinct archive cls (filter P (map (\<lambda>m. m\<lparr>is_current := f m\<rparr>) ms))
     = count_distinct archive cls (filter (\<lambda>m. P (m\<lparr>is_current := f m\<rparr>)) ms)"
  by (simp add: count_distinct_def filter_map comp_def)

lemma group_counts_flags:
  assumes "\<And>m. month_of (m\<lparr>is_current := f m\<rparr>) = month_of m"
    and "\<And>m. P (m\<lparr>is_current := f m\<rparr>) = P m"
  shows "group_counts month_of archive (filter P (map (\<lambda>m. m\<lparr>is_current := f m\<rparr>) metas))
           = group_counts month_of archive (filter P metas)"
  by (simp add: group_counts_def count_distinct_def filter_map comp_def assms)

lemma group_counts_months:
  "map row_month (group_counts month_of archive rows) = remdups (map month_of rows)"
  by (simp add: group_counts_def comp_def)

lemma group_counts_row:
  assumes "r \<in> set (group_counts month_of archive rows)"
  shows "row_month r \<in> set (map month_of rows)"
    and "count_new r = int (card (set (map paper_id (filter (\<lambda>m. month_of m = row_month r
            \<and> categorization_case archive (abs_categories m) = ''new'') rows))))"
    and "count_cross r = int (card (set (map paper_id (filter (\<lambda>m. month_of m = row_month r
            \<and> categorization_case archive (abs_categories m) = ''cross'') rows))))"
proof -
  from assms obtain mo where mo: "mo \<in> set (map month_of rows)"
    and r: "r = \<lparr>row_month = mo,
                count_new = count_distinct archive ''new'' (filter (\<lambda>m. month_of m = mo) rows),
                count_cross = count_distinct archive ''cross'' (filter (\<lambda>m. month_of m = mo) rows)\<rparr>"
    by (auto simp: group_counts_def)
  from r have rm: "row_month r = mo" by simp
  from mo rm show "row_month r \<in> set (map month_of rows)" by simp
  have cd: "count_distinct archive cls (filter (\<lambda>m. month_of m = mo) rows)
        = int (card (set (map paper_id (filter (\<lambda>m. month_of m = mo
            \<and> categorization_case archive (abs_categories m) = cls) rows))))" for cls
    by (simp add: count_distinct_def length_remdups_card_conv conj_commute)
  from r show "count_new r = int (card (set (map paper_id (filter (\<lambda>m. month_of m = row_month r
            \<and> categorization_case archive (abs_categories m) = ''new'') rows))))"
    unfolding rm by (simp only: count_row.simps cd)
  from r show "count_cross r = int (card (set (map paper_id (filter (\<lambda>m. month_of m = row_month r
            \<and> categorization_case archive (abs_categories m) = ''cross'') rows))))"
    unfolding rm by (simp only: count_row.simps cd)
qed

lemma process_loop_months:
  assumes "length ml = 12"
    and "\<forall>r\<in>set rows. \<exists>m. py_int (row_month r) = Inr m \<and> 1 \<le> m \<and> m \<le> 12"
    and "distinct (map (\<lambda>r. py_int (row_month r)) rows)"
    and "process_loop ml nt ct rows = Inr (ml', nt', ct')"
  shows "(\<forall>r\<in>set rows. \<forall>m. py_int (row_month r) = Inr m \<longrightarrow>
            new (ml' ! nat (m - 1)) = count_new r \<and> cross (ml' ! nat (m - 1)) = count_cross r)
       \<and> (\<forall>k. 1 \<le> k \<and> k \<le> 12 \<and> (\<forall>r\<in>set rows. py_int (row_month r) \<noteq> Inr k) \<longrightarrow>
            ml' ! nat (k - 1) = ml ! nat (k - 1))"
  using assms
proof (induction rows arbitrary: ml nt ct)
  case Nil
  then show ?case by simp
next
  case (Cons e rows)
  from Cons.prems(2) obtain m where m: "py_int (row_month e) = Inr m" "1 \<le> m" "m \<le> 12"
    by auto
  define i where "i = nat (m - 1)"
  have i: "i < 12" using m by (simp add: i_def)
  have idx: "py_index (length ml) (m - 1) = Inr i"
    using m Cons.prems(1) by (simp add: py_index_def i_def)
  define ml2 where "ml2 = ml[i := (ml ! i)\<lparr>new := count_new e, cross := count_cross e\<rparr>]"
  have len2: "length ml2 = 12" using Cons.prems(1) by (simp add: ml2_def)
  have step: "process_loop ml2 (nt + count_new e) (ct + count_cross e) rows = Inr (ml', nt', ct')"
    using Cons.prems(4) by (simp add: m(1) idx ml2_def)
  have rows_ok: "\<forall>r\<in>set rows. \<exists>m. py_int (row_month r) = Inr m \<and> 1 \<le> m \<and> m \<le> 12"
    using Cons.prems(2) by simp
  have dist: "distinct (map (\<lambda>r. py_int (row_month r)) rows)"
    using Cons.prems(3) by simp
  have notin: "\<forall>r\<in>set rows. py_int (row_month r) \<noteq> Inr m"
  proof
    fix r assume r: "r \<in> set rows"
    from Cons.prems(3) have "py_int (row_month e) \<notin> set (map (\<lambda>r. py_int (row_month r)) rows)"
      by simp
    moreover from r have "py_int (row_month r) \<in> set (map (\<lambda>r. py_int (row_month r)) rows)"
      by simp
    ultimately show "py_int (row_month r) \<noteq> Inr m" using m(1) by metis
  qed
  note ih = Cons.IH[OF len2 rows_ok dist step]
  from ih have ih1: "\<forall>r\<in>set rows. \<forall>m. py_int (row_month r) = Inr m \<longrightarrow>
            new (ml' ! nat (m - 1)) = count_new r \<and> cross (ml' ! nat (m - 1)) = count_cross r"
    by (rule conjunct1)
  from ih have ih2: "\<forall>k. 1 \<le> k \<and> k \<le> 12 \<and> (\<forall>r\<in>set rows. py_int (row_month r) \<noteq> Inr k) \<longrightarrow>
            ml' ! nat (k - 1) = ml2 ! nat (k - 1)"
    by (rule conjunct2)
  have e_val: "new (ml' ! nat (m - 1)) = count_new e \<and> cross (ml' ! nat (m - 1)) = count_cross e"
  proof -
    from ih2 m notin have "ml' ! nat (m - 1) = ml2 ! nat (m - 1)" by blast
    also have "\<dots> = (ml ! i)\<lparr>new := count_new e, cross := count_cross e\<rparr>"
      using i Cons.prems(1) by (simp add: ml2_def i_def)
    finally show ?thesis by simp
  qed
  show ?case
  proof (intro conjI ballI allI impI)
    fix r m' assume r: "r \<in> set (e # rows)" and m': "py_int (row_month r) = Inr m'"
    show "new (ml' ! nat (m' - 1)) = count_new r"
    proof (cases "r = e")
      case True
      with m m' e_val show ?thesis by simp
    next
      case False
      with r have "r \<in> set rows" by simp
      with ih1 m' show ?thesis by blast
    qed
    show "cross (ml' ! nat (m' - 1)) = count_cross r"
    proof (cases "r = e")
      case True
      with m m' e_val show ?thesis by simp
    next
      case False
      with r have "r \<in> set rows" by simp
      with ih1 m' show ?thesis by blast
    qed
  next
    fix k assume k: "1 \<le> k \<and> k \<le> 12 \<and> (\<forall>r\<in>set (e # rows). py_int (row_month r) \<noteq> Inr k)"
    then have km: "k \<noteq> m" using m(1) by auto
    from k have "1 \<le> k \<and> k \<le> 12 \<and> (\<forall>r\<in>set rows. py_int (row_month r) \<noteq> Inr k)" by simp
    with ih2 have "ml' ! nat (k - 1) = ml2 ! nat (k - 1)" by blast
    also have "\<dots> = ml ! nat (k - 1)"
    proof -
      from k have k1: "1 \<le> k" by blast
      from km k1 m(2) have "nat (k - 1) \<noteq> i" unfolding i_def by arith
      then show ?thesis by (simp add: ml2_def)
    qed
    finally show "ml' ! nat (k - 1) = ml ! nat (k - 1)" .
  qed
qed

lemma process_months:
  assumes ok: "month_values_ok rows"
    and res: "process_yearly_article_counts rows yr = Inr yc"
    and k: "1 \<le> k" "k \<le> 12"
  shows "(\<forall>r\<in>set rows. py_int (row_month r) = Inr k \<longrightarrow>
            new (by_month yc ! nat (k - 1)) = count_new r
            \<and> cross (by_month yc ! nat (k - 1)) = count_cross r)
       \<and> ((\<forall>r\<in>set rows. py_int (row_month r) \<noteq> Inr k) \<longrightarrow>
            new (by_month yc ! nat (k - 1)) = 0 \<and> cross (by_month yc ! nat (k - 1)) = 0)"
proof -
  let ?ml = "map (\<lambda>i. \<lparr>mc_year = yr, month = i, new = 0, cross = 0\<rparr>) [1..12]"
  from res obtain ml' nt' ct' where pl: "process_loop ?ml 0 0 rows = Inr (ml', nt', ct')"
    and yc: "by_month yc = ml'"
    by (auto simp: process_yearly_article_counts_def split: sum.splits prod.splits)
  have len: "length ?ml = 12" by simp
  note pm = process_loop_months[OF len month_values_okD(1)[OF ok] month_values_okD(2)[OF ok] pl]
  have z: "new (?ml ! nat (k - 1)) = 0 \<and> cross (?ml ! nat (k - 1)) = 0"
    using k by simp
  show ?thesis
  proof (intro conjI ballI impI)
    fix r assume "r \<in> set rows" "py_int (row_month r) = Inr k"
    with pm show "new (by_month yc ! nat (k - 1)) = count_new r"
      and "cross (by_month yc ! nat (k - 1)) = count_cross r"
      unfolding yc by blast+
  next
    assume n: "\<forall>r\<in>set rows. py_int (row_month r) \<noteq> Inr k"
    with pm k have "ml' ! nat (k - 1) = ?ml ! nat (k - 1)" by blast
    with z show "new (by_month yc ! nat (k - 1)) = 0" and "cross (by_month yc ! nat (k - 1)) = 0"
      unfolding yc by simp_all
  qed
qed

lemma era_months:
  assumes ok: "month_values_ok (group_counts month_of archive (filter era metas))"
    and res: "process_yearly_article_counts (group_counts month_of archive (filter era metas)) yr
                = Inr yc"
    and k: "1 \<le> k" "k \<le> 12"
  shows "new (by_month yc ! nat (k - 1))
           = int (card (month_papers metas era month_of archive ''new'' k))"
    and "cross (by_month yc ! nat (k - 1))
           = int (card (month_papers metas era month_of archive ''cross'' k))"
proof -
  let ?rows = "group_counts month_of archive (filter era metas)"
  note pm = process_months[OF ok res k]
  note dist = month_values_okD(2)[OF ok]
  have same: "(month_of m = row_month r) = (py_int (month_of m) = Inr k)"
    if r: "r \<in> set ?rows" and rk: "py_int (row_month r) = Inr k"
      and m: "m \<in> set (filter era metas)" for r m
  proof
    assume "month_of m = row_month r"
    with rk show "py_int (month_of m) = Inr k" by simp
  next
    assume mk: "py_int (month_of m) = Inr k"
    from m have "month_of m \<in> set (remdups (map month_of (filter era metas)))" by simp
    then have "month_of m \<in> set (map row_month ?rows)"
      by (simp only: group_counts_months)
    then obtain r' where r': "r' \<in> set ?rows" "row_month r' = month_of m" by auto
    from dist have "inj_on (\<lambda>r. py_int (row_month r)) (set ?rows)"
      by (simp add: distinct_map)
    moreover from r' mk rk have "py_int (row_month r') = py_int (row_month r)" by simp
    ultimately have "r' = r" using r r'(1) by (auto dest: inj_onD)
    with r'(2) show "month_of m = row_month r" by simp
  qed
  have papers: "set (map paper_id (filter (\<lambda>m. month_of m = row_month r
            \<and> categorization_case archive (abs_categories m) = cls) (filter era metas)))
        = month_papers metas era month_of archive cls k"
    if r: "r \<in> set ?rows" and rk: "py_int (row_month r) = Inr k" for r cls
  proof -
    have "filter (\<lambda>m. month_of m = row_month r
            \<and> categorization_case archive (abs_categories m) = cls) (filter era metas)
        = filter (\<lambda>m. era m \<and> py_int (month_of m) = Inr k
                         \<and> categorization_case archive (abs_categories m) = cls) metas"
      unfolding filter_filter
      by (rule filter_cong[OF refl]) (use same[OF r rk] in auto)
    then show ?thesis by (simp only: month_papers_def)
  qed
  have none: "month_papers metas era month_of archive cls k = {}"
    if n: "\<forall>r\<in>set ?rows. py_int (row_month r) \<noteq> Inr k" for cls
  proof -
    have "\<not> (era m \<and> py_int (month_of m) = Inr k
             \<and> categorization_case archive (abs_categories m) = cls)" if m: "m \<in> set metas" for m
    proof
      assume a: "era m \<and> py_int (month_of m) = Inr k
             \<and> categorization_case archive (abs_categories m) = cls"
      with m have "month_of m \<in> set (remdups (map month_of (filter era metas)))" by simp
      then have "month_of m \<in> set (map row_month ?rows)"
        by (simp only: group_counts_months)
      then obtain r' where "r' \<in> set ?rows" "row_month r' = month_of m" by auto
      with n a show False by auto
    qed
    then have "filter (\<lambda>m. era m \<and> py_int (month_of m) = Inr k
                         \<and> categorization_case archive (abs_categories m) = cls) metas = []"
      by (simp add: filter_empty_conv)
    then show ?thesis by (simp only: month_papers_def list.map list.set)
  qed
  show "new (by_month yc ! nat (k - 1))
           = int (card (month_papers metas era month_of archive ''new'' k))"
  proof (cases "\<exists>r\<in>set ?rows. py_int (row_month r) = Inr k")
    case True
    then obtain r where r: "r \<in> set ?rows" "py_int (row_month r) = Inr k" by blast
    with pm have "new (by_month yc ! nat (k - 1)) = count_new r" by blast
    also note group_counts_row(2)[OF r(1)]
    also note papers[OF r]
    finally show ?thesis .
  next
    case False
    then have n: "\<forall>r\<in>set ?rows. py_int (row_month r) \<noteq> Inr k" by blast
    with pm have "new (by_month yc ! nat (k - 1)) = 0" by blast
    with none[OF n] show ?thesis by simp
  qed
  show "cross (by_month yc ! nat (k - 1))
           = int (card (month_papers metas era month_of archive ''cross'' k))"
  proof (cases "\<exists>r\<in>set ?rows. py_int (row_month r) = Inr k")
    case True
    then obtain r where r: "r \<in> set ?rows" "py_int (row_month r) = Inr k" by blast
    with pm have "cross (by_month yc ! nat (k - 1)) = count_cross r" by blast
    also note group_counts_row(3)[OF r(1)]
    also note papers[OF r]
    finally show ?thesis .
  next
    case False
    then have n: "\<forall>r\<in>set ?rows. py_int (row_month r) \<noteq> Inr k" by blast
    with pm have "cross (by_month yc ! nat (k - 1)) = 0" by blast
    with none[OF n] show ?thesis by simp
  qed
qed

lemma flags_ignored:
  "get_yearly_article_counts (map (\<lambda>m. m\<lparr>is_current := f m\<rparr>) metas) archive yr
     = get_yearly_article_counts metas archive yr"
proof -
  have n: "count_query_new (map (\<lambda>m. m\<lparr>is_current := f m\<rparr>) metas) a yr = count_query_new metas a yr" for a
    unfolding count_query_new_def by (rule group_counts_flags) simp_all
  have o: "count_query_old (map (\<lambda>m. m\<lparr>is_current := f m\<rparr>) metas) a yr = count_query_old metas a yr" for a
    unfolding count_query_old_def by (rule group_counts_flags) simp_all
  have nn: "get_yearly_article_counts_new_id (map (\<lambda>m. m\<lparr>is_current := f m\<rparr>) metas) a yr
              = get_yearly_article_counts_new_id metas a yr" for a
    by (simp add: get_yearly_article_counts_new_id_def n)
  have oo: "get_yearly_article_counts_old_id (map (\<lambda>m. m\<lparr>is_current := f m\<rparr>) metas) a yr
              = get_yearly_article_counts_old_id metas a yr" for a
    by (simp add: get_yearly_article_counts_old_id_def o)
  show ?thesis
    by (simp only: get_yearly_article_counts_def nn oo)
qed

lemma query_rows_count_papers:
  assumes "r \<in> set (group_counts month_of archive (filter era metas))"
  shows "count_new r = int (card (month_string_papers metas era month_of archive ''new'' (row_month r)))
       \<and> count_cross r
           = int (card (month_string_papers metas era month_of archive ''cross'' (row_month r)))"
  using group_counts_row(2,3)[OF assms]
  by (simp only: month_string_papers_def filter_filter)

text \<open>
  Claim C4, as the code has it. Neither yearly query looks at \<open>is_current\<close>. The result of
  \<open>get_yearly_article_counts\<close> is the same whatever the flags of the records are. Each row
  of either query holds, for its month string, the number of distinct paper ids among all the
  records that pass the year filter, have that month string and are classified new
  (respectively cross). When the month values are numbers from 1 to 12, distinct within each
  query result, the call returns and month \<open>k\<close> of the result holds the number of distinct
  paper ids among all the records of month \<open>k\<close> classified new (respectively cross), zero
  when there is none, the new-id and the old-id numbers added up in 2007.
\<close>

theorem yearly_counts_over_all_records:
  "get_yearly_article_counts (map (\<lambda>m. m\<lparr>is_current := f m\<rparr>) metas) archive yr
     = get_yearly_article_counts metas archive yr
   \<and> (\<forall>r\<in>set (count_query_new metas a yr).
         count_new r = int (card (month_string_papers metas
             (\<lambda>m. startswith (paper_id m) (fmt02 (yr mod 100)))
             (\<lambda>m. sql_substr (paper_id m) 3 2) a ''new'' (row_month r)))
         \<and> count_cross r = int (card (month_string_papers metas
             (\<lambda>m. startswith (paper_id m) (fmt02 (yr mod 100)))
             (\<lambda>m. sql_substr (paper_id m) 3 2) a ''cross'' (row_month r))))
   \<and> (\<forall>r\<in>set (count_query_old metas a yr).
         count_new r = int (card (month_string_papers metas
             (\<lambda>m. sql_like (''%/'' @ fmt02 (yr mod 100) @ ''%'') (paper_id m))
             (\<lambda>m. sql_substr (after_last_slash (paper_id m)) 3 2) a ''new'' (row_month r)))
         \<and> count_cross r = int (card (month_string_papers metas
             (\<lambda>m. sql_like (''%/'' @ fmt02 (yr mod 100) @ ''%'') (paper_id m))
             (\<lambda>m. sql_substr (after_last_slash (paper_id m)) 3 2) a ''cross'' (row_month r))))
   \<and> ((2007 \<le> yr \<longrightarrow> month_values_ok (count_query_new metas (math_token archive) yr))
        \<and> (yr \<le> 2007 \<longrightarrow> month_values_ok (count_query_old metas (math_token archive) yr))
      \<longrightarrow> (\<exists>yc. get_yearly_article_counts metas archive yr = Inr yc
            \<and> (\<forall>k. 1 \<le> k \<and> k \<le> 12 \<longrightarrow>
                  new (by_month yc ! nat (k - 1))
                    = (if 2007 \<le> yr
                       then int (card (new_id_papers metas (math_token archive) yr ''new'' k))
                       else 0)
                      + (if yr \<le> 2007
                         then int (card (old_id_papers metas (math_token archive) yr ''new'' k))
                         else 0)
                  \<and> cross (by_month yc ! nat (k - 1))
                    = (if 2007 \<le> yr
                       then int (card (new_id_papers metas (math_token archive) yr ''cross'' k))
                       else 0)
                      + (if yr \<le> 2007
                         then int (card (old_id_papers metas (math_token archive) yr ''cross'' k))
                         else 0))))"
proof (intro conjI ballI impI)
  show "get_yearly_article_counts (map (\<lambda>m. m\<lparr>is_current := f m\<rparr>) metas) archive yr
     = get_yearly_article_counts metas archive yr"
    by (rule flags_ignored)
next
  fix r assume r: "r \<in> set (count_query_new metas a yr)"
  note q = query_rows_count_papers[OF r[unfolded count_query_new_def]]
  from q show "count_new r = int (card (month_string_papers metas
             (\<lambda>m. startswith (paper_id m) (fmt02 (yr mod 100)))
             (\<lambda>m. sql_substr (paper_id m) 3 2) a ''new'' (row_month r)))" ..
  from q show "count_cross r = int (card (month_string_papers metas
             (\<lambda>m. startswith (paper_id m) (fmt02 (yr mod 100)))
             (\<lambda>m. sql_substr (paper_id m) 3 2) a ''cross'' (row_month r)))" ..
next
  fix r assume r: "r \<in> set (count_query_old metas a yr)"
  note q = query_rows_count_papers[OF r[unfolded count_query_old_def]]
  from q show "count_new r = int (card (month_string_papers metas
             (\<lambda>m. sql_like (''%/'' @ fmt02 (yr mod 100) @ ''%'') (paper_id m))
             (\<lambda>m. sql_substr (after_last_slash (paper_id m)) 3 2) a ''new'' (row_month r)))" ..
  from q show "count_cross r = int (card (month_string_papers metas
             (\<lambda>m. sql_like (''%/'' @ fmt02 (yr mod 100) @ ''%'') (paper_id m))
             (\<lambda>m. sql_substr (after_last_slash (paper_id m)) 3 2) a ''cross'' (row_month r)))" ..
next
  let ?a = "math_token archive"
  assume pre: "(2007 \<le> yr \<longrightarrow> month_values_ok (count_query_new metas ?a yr))
        \<and> (yr \<le> 2007 \<longrightarrow> month_values_ok (count_query_old metas ?a yr))"
  have new_era: "\<exists>yc. get_yearly_article_counts_new_id metas ?a yr = Inr yc
        \<and> length (by_month yc) = 12
        \<and> (\<forall>k. 1 \<le> k \<and> k \<le> 12 \<longrightarrow>
               new (by_month yc ! nat (k - 1)) = int (card (new_id_papers metas ?a yr ''new'' k))
               \<and> cross (by_month yc ! nat (k - 1))
                   = int (card (new_id_papers metas ?a yr ''cross'' k)))"
    if "2007 \<le> yr"
  proof -
    from pre that have ok: "month_values_ok (count_query_new metas ?a yr)" by blast
    from process_conserved[OF ok, of yr] obtain yc where
      yc: "process_yearly_article_counts (count_query_new metas ?a yr) yr = Inr yc"
      and c: "conserved yc" by blast
    have "new (by_month yc ! nat (k - 1)) = int (card (new_id_papers metas ?a yr ''new'' k))
        \<and> cross (by_month yc ! nat (k - 1)) = int (card (new_id_papers metas ?a yr ''cross'' k))"
      if k: "1 \<le> k \<and> k \<le> 12" for k
    proof -
      from k have k1: "1 \<le> k" and k2: "k \<le> 12" by blast+
      show ?thesis
        unfolding new_id_papers_def
        using era_months[OF ok[unfolded count_query_new_def] yc[unfolded count_query_new_def] k1 k2]
        by blast
    qed
    with yc c show ?thesis
      by (simp add: get_yearly_article_counts_new_id_def conserved_def)
  qed
  have old_era: "\<exists>yc. get_yearly_article_counts_old_id metas ?a yr = Inr yc
        \<and> length (by_month yc) = 12
        \<and> (\<forall>k. 1 \<le> k \<and> k \<le> 12 \<longrightarrow>
               new (by_month yc ! nat (k - 1)) = int (card (old_id_papers metas ?a yr ''new'' k))
               \<and> cross (by_month yc ! nat (k - 1))
                   = int (card (old_id_papers metas ?a yr ''cross'' k)))"
    if "yr \<le> 2007"
  proof -
    from pre that have ok: "month_values_ok (count_query_old metas ?a yr)" by blast
    from process_conserved[OF ok, of yr] obtain yc where
      yc: "process_yearly_article_counts (count_query_old metas ?a yr) yr = Inr yc"
      and c: "conserved yc" by blast
    have "new (by_month yc ! nat (k - 1)) = int (card (old_id_papers metas ?a yr ''new'' k))
        \<and> cross (by_month yc ! nat (k - 1)) = int (card (old_id_papers metas ?a yr ''cross'' k))"
      if k: "1 \<le> k \<and> k \<le> 12" for k
    proof -
      from k have k1: "1 \<le> k" and k2: "k \<le> 12" by blast+
      show ?thesis
        unfolding old_id_papers_def
        using era_months[OF ok[unfolded count_query_old_def] yc[unfolded count_query_old_def] k1 k2]
        by blast
    qed
    with yc c show ?thesis
      by (simp add: get_yearly_article_counts_old_id_def conserved_def)
  qed
  show "\<exists>yc. get_yearly_article_counts metas archive yr = Inr yc
            \<and> (\<forall>k. 1 \<le> k \<and> k \<le> 12 \<longrightarrow>
                  new (by_month yc ! nat (k - 1))
                    = (if 2007 \<le> yr
                       then int (card (new_id_papers metas (math_token archive) yr ''new'' k))
                       else 0)
                      + (if yr \<le> 2007
                         then int (card (old_id_papers metas (math_token archive) yr ''new'' k))
                         else 0)
                  \<and> cross (by_month yc ! nat (k - 1))
                    = (if 2007 \<le> yr
                       then int (card (new_id_papers metas (math_token archive) yr ''cross'' k))
                       else 0)
                      + (if yr \<le> 2007
                         then int (card (old_id_papers metas (math_token archive) yr ''cross'' k))
                         else 0))"
  proof (cases "yr > 2007")
    case True
    then have "2007 \<le> yr" by simp
    from new_era[OF this] True show ?thesis
      by (auto simp: get_yearly_article_counts_def)
  next
    case False
    show ?thesis
    proof (cases "yr = 2007")
      case True
      from new_era obtain n where n: "get_yearly_article_counts_new_id metas ?a yr = Inr n"
        "length (by_month n) = 12"
        "\<forall>k. 1 \<le> k \<and> k \<le> 12 \<longrightarrow>
               new (by_month n ! nat (k - 1)) = int (card (new_id_papers metas ?a yr ''new'' k))
               \<and> cross (by_month n ! nat (k - 1))
                   = int (card (new_id_papers metas ?a yr ''cross'' k))"
        using True by auto
      from old_era obtain ol where ol: "get_yearly_article_counts_old_id metas ?a yr = Inr ol"
        "length (by_month ol) = 12"
        "\<forall>k. 1 \<le> k \<and> k \<le> 12 \<longrightarrow>
               new (by_month ol ! nat (k - 1)) = int (card (old_id_papers metas ?a yr ''new'' k))
               \<and> cross (by_month ol ! nat (k - 1))
                   = int (card (old_id_papers metas ?a yr ''cross'' k))"
        using True by auto
      let ?yc = "\<lparr>year = year n, new_count = new_count n + new_count ol,
                cross_count = cross_count n + cross_count ol,
                by_month = map (combined_month n ol) [1..12]\<rparr>"
      have comb: "combine_yearly_article_counts n ol = Inr ?yc"
        using n(2) ol(2) by (intro combine_ok) simp_all
      have g: "get_yearly_article_counts metas archive yr = Inr ?yc"
        using True n(1) ol(1) comb by (simp add: get_yearly_article_counts_def)
      have nth: "by_month ?yc ! nat (k - 1) = combined_month n ol k" if "1 \<le> k \<and> k \<le> 12" for k
      proof -
        from that have k1: "1 \<le> k" and k2: "k \<le> 12" by blast+
        from k1 k2 have "nat (k - 1) < 12" by arith
        moreover from k1 have "1 + int (nat (k - 1)) = k" by arith
        ultimately show ?thesis by simp
      qed
      have "new (by_month ?yc ! nat (k - 1))
              = int (card (new_id_papers metas ?a yr ''new'' k))
                + int (card (old_id_papers metas ?a yr ''new'' k))
            \<and> cross (by_month ?yc ! nat (k - 1))
              = int (card (new_id_papers metas ?a yr ''cross'' k))
                + int (card (old_id_papers metas ?a yr ''cross'' k))"
        if k: "1 \<le> k \<and> k \<le> 12" for k
        using n(3) ol(3) k unfolding nth[OF k] combined_month_def by simp
      with g True show ?thesis by (intro exI[of _ ?yc]) simp
    next
      case False
      with \<open>\<not> yr > 2007\<close> have lt: "yr < 2007" by simp
      then have "yr \<le> 2007" by simp
      from old_era[OF this] lt show ?thesis
        by (auto simp: get_yearly_article_counts_def)
    qed
  qed
qed

theorem yearly_counts_over_all_records_witness:
  "\<not> isl (get_yearly_article_counts ex_versions ''cs.AI'' 2008)
   \<and> new_id_papers ex_versions ''cs.AI'' 2008 ''new'' 1 = {''0801.0001''}
   \<and> new_id_papers ex_versions ''cs.AI'' 2008 ''cross'' 1 = {''0801.0002''}
   \<and> new (by_month (projr (get_yearly_article_counts ex_versions ''cs.AI'' 2008)) ! 0) = 1
   \<and> cross (by_month (projr (get_yearly_article_counts ex_versions ''cs.AI'' 2008)) ! 0) = 1"
proof -
  let ?g = "get_yearly_article_counts ex_versions ''cs.AI'' 2008"
  have t: "math_token ''cs.AI'' = ''cs.AI''" by (simp add: math_token_def)
  have ok: "month_values_ok (count_query_new ex_versions (math_token ''cs.AI'') 2008)"
    by code_simp
  have p: "new_id_papers ex_versions ''cs.AI'' 2008 ''new'' 1 = {''0801.0001''}"
    "new_id_papers ex_versions ''cs.AI'' 2008 ''cross'' 1 = {''0801.0002''}"
    by code_simp+
  from yearly_counts_over_all_records[of "\<lambda>m. 1" ex_versions "''cs.AI''" 2008 "''cs.AI''"] ok
  obtain yc where yc: "?g = Inr yc"
    and m: "\<forall>k. 1 \<le> k \<and> k \<le> 12 \<longrightarrow>
                  new (by_month yc ! nat (k - 1))
                    = (if (2007::int) \<le> 2008
                       then int (card (new_id_papers ex_versions (math_token ''cs.AI'') 2008 ''new'' k))
                       else 0)
                      + (if (2008::int) \<le> 2007
                         then int (card (old_id_papers ex_versions (math_token ''cs.AI'') 2008 ''new'' k))
                         else 0)
                  \<and> cross (by_month yc ! nat (k - 1))
                    = (if (2007::int) \<le> 2008
                       then int (card (new_id_papers ex_versions (math_token ''cs.AI'') 2008 ''cross'' k))
                       else 0)
                      + (if (2008::int) \<le> 2007
                         then int (card (old_id_papers ex_versions (math_token ''cs.AI'') 2008 ''cross'' k))
                         else 0)"
    by auto
  from m[rule_format, of 1] have "new (by_month yc ! 0) = 1" "cross (by_month yc ! 0) = 1"
    by (simp_all add: t p)
  with yc p show ?thesis by simp
qed

text \<open>
  A single record that is not current is counted as new in January 2008, and the result
  differs from the one over the current records alone.
\<close>

theorem non_current_record_is_counted:
  "get_yearly_article_counts [mk_meta 1 ''0801.0001'' ''cs.AI'' 0] ''cs.AI'' 2008
     \<noteq> get_yearly_article_counts
          (filter (\<lambda>m. is_current m = 1) [mk_meta 1 ''0801.0001'' ''cs.AI'' 0]) ''cs.AI'' 2008
   \<and> is_current (mk_meta 1 ''0801.0001'' ''cs.AI'' 0) \<noteq> 1
   \<and> new (by_month (projr (get_yearly_article_counts
            [mk_meta 1 ''0801.0001'' ''cs.AI'' 0] ''cs.AI'' 2008)) ! 0) = 1
   \<and> new_count (projr (get_yearly_article_counts
            [mk_meta 1 ''0801.0001'' ''cs.AI'' 0] ''cs.AI'' 2008)) = 1"
  by code_simp

subsection \<open>Listing items: order and type\<close>

lemma make_item_Inr:
  assumes "make_item (m, p) = Inr it"
  shows "item_id it = paper_id m" "listingType it = (if p then ''new'' else ''cross'')"
    "py_split (abs_categories m) \<noteq> []" "primary it = hd (py_split (abs_categories m))"
  using assms by (auto simp: make_item_def split: list.splits)

lemma make_item_type:
  "make_item e = Inr it \<Longrightarrow> listingType it = (if snd e then ''new'' else ''cross'')"
  by (cases e) (simp add: make_item_Inr(2))

lemma entries_loop_Inr:
  "entries_loop ns cs rows = Inr (ns', cs') \<Longrightarrow>
     \<exists>ns2 cs2. ns' = ns @ ns2 \<and> cs' = cs @ cs2
       \<and> list_all2 (\<lambda>it e. make_item e = Inr it) ns2 (filter snd rows)
       \<and> list_all2 (\<lambda>it e. make_item e = Inr it) cs2 (filter (\<lambda>e. \<not> snd e) rows)"
proof (induction rows arbitrary: ns cs)
  case Nil
  then show ?case by simp
next
  case (Cons e rows)
  from Cons.prems obtain it where it: "make_item e = Inr it"
    by (cases "make_item e") auto
  show ?case
  proof (cases "snd e")
    case True
    with Cons.prems it have "entries_loop (ns @ [it]) cs rows = Inr (ns', cs')" by simp
    from Cons.IH[OF this] obtain ns2 cs2 where
      "ns' = (ns @ [it]) @ ns2" "cs' = cs @ cs2"
      "list_all2 (\<lambda>it e. make_item e = Inr it) ns2 (filter snd rows)"
      "list_all2 (\<lambda>it e. make_item e = Inr it) cs2 (filter (\<lambda>e. \<not> snd e) rows)"
      by blast
    then have "ns' = ns @ (it # ns2) \<and> cs' = cs @ cs2
       \<and> list_all2 (\<lambda>it e. make_item e = Inr it) (it # ns2) (filter snd (e # rows))
       \<and> list_all2 (\<lambda>it e. make_item e = Inr it) cs2 (filter (\<lambda>e. \<not> snd e) (e # rows))"
      using True it by simp
    then show ?thesis by blast
  next
    case False
    with Cons.prems it have "entries_loop ns (cs @ [it]) rows = Inr (ns', cs')" by simp
    from Cons.IH[OF this] obtain ns2 cs2 where
      "ns' = ns @ ns2" "cs' = (cs @ [it]) @ cs2"
      "list_all2 (\<lambda>it e. make_item e = Inr it) ns2 (filter snd rows)"
      "list_all2 (\<lambda>it e. make_item e = Inr it) cs2 (filter (\<lambda>e. \<not> snd e) rows)"
      by blast
    then have "ns' = ns @ ns2 \<and> cs' = cs @ (it # cs2)
       \<and> list_all2 (\<lambda>it e. make_item e = Inr it) ns2 (filter snd (e # rows))
       \<and> list_all2 (\<lambda>it e. make_item e = Inr it) (it # cs2) (filter (\<lambda>e. \<not> snd e) (e # rows))"
      using False it by simp
    then show ?thesis by blast
  qed
qed

lemma entries_items:
  assumes "entries_into_listing_items rows = Inr (ns, cs)"
  shows "list_all2 (\<lambda>it e. make_item e = Inr it) ns (filter snd rows)"
    and "list_all2 (\<lambda>it e. make_item e = Inr it) cs (filter (\<lambda>e. \<not> snd e) rows)"
  using entries_loop_Inr[of "[]" "[]" rows ns cs] assms
  by (auto simp: entries_into_listing_items_def)

lemma made_ids:
  "list_all2 (\<lambda>it e. make_item e = Inr it) its es \<Longrightarrow> map item_id its = map (\<lambda>e. paper_id (fst e)) es"
proof (induction rule: list_all2_induct)
  case Nil
  show ?case by simp
next
  case (Cons it its e es)
  then show ?case using make_item_Inr(1)[of "fst e" "snd e" it] by simp
qed

lemma made_from_row:
  assumes "list_all2 (\<lambda>it e. make_item e = Inr it) its es" "it \<in> set its"
  shows "\<exists>e\<in>set es. make_item e = Inr it"
  using assms by (induction rule: list_all2_induct) auto

lemma sorted_same_flag:
  assumes "sorted (map (\<lambda>(m, is_primary). (\<not> is_primary, paper_id m)) es)"
    and "\<forall>e\<in>set es. snd e = b"
  shows "sorted (map (\<lambda>e. paper_id (fst e)) es)"
  using assms
proof (induction es)
  case Nil
  show ?case by simp
next
  case (Cons e es)
  then have "\<forall>x\<in>set es. paper_id (fst e) \<le> paper_id (fst x)"
    by (auto simp: case_prod_beta less_eq_prod_def)
  with Cons show ?case by simp
qed

lemma result_rows_sorted:
  "sorted (map (\<lambda>(m, is_primary). (\<not> is_primary, paper_id m)) (result_rows db cats y mo skip show))"
proof -
  let ?k = "\<lambda>(m, is_primary). (\<not> is_primary, paper_id (m::Metadata))"
  have "sorted (map ?k (order_rows (joined_rows db cats y mo)))"
    unfolding order_rows_def by (rule sorted_sort_key)
  then have "sorted (take show (drop skip (map ?k (order_rows (joined_rows db cats y mo)))))"
    by simp
  then show ?thesis by (simp add: result_rows_def take_map drop_map)
qed

text \<open>
  Claim C3. The items of a returned listing are the new items followed by the cross items,
  and within each of the two groups the paper ids ascend (in the order of the query's
  \<open>ORDER BY\<close>, here the order of character lists).
\<close>

theorem new_before_cross_ids_ascending:
  assumes "get_articles_for_month db tax t y mo skip show = Inr l"
  shows "\<exists>ns cs. listings l = ns @ cs
           \<and> (\<forall>it\<in>set ns. listingType it = ''new'')
           \<and> (\<forall>it\<in>set cs. listingType it = ''cross'')
           \<and> sorted (map item_id ns) \<and> sorted (map item_id cs)"
proof -
  from assms obtain cats where cats: "all_possible_categories tax t = Inr cats"
    by (cases "all_possible_categories tax t") (auto simp: get_articles_for_month_def)
  let ?rows = "result_rows db cats y mo skip show"
  let ?k = "\<lambda>(m, is_primary). (\<not> is_primary, paper_id (m::Metadata))"
  from assms cats obtain ns cs where e: "entries_into_listing_items ?rows = Inr (ns, cs)"
    and l: "listings l = ns @ cs"
    by (auto simp: get_articles_for_month_def split: sum.splits prod.splits)
  note n = entries_items(1)[OF e] and c = entries_items(2)[OF e]
  have srt: "sorted (map ?k ?rows)" by (rule result_rows_sorted)
  have "sorted (map ?k (filter snd ?rows))" using srt by (rule sorted_filter)
  then have "sorted (map (\<lambda>e. paper_id (fst e)) (filter snd ?rows))"
    by (rule sorted_same_flag[where b = True]) simp
  then have sn: "sorted (map item_id ns)" by (simp only: made_ids[OF n])
  have "sorted (map ?k (filter (\<lambda>e. \<not> snd e) ?rows))" using srt by (rule sorted_filter)
  then have "sorted (map (\<lambda>e. paper_id (fst e)) (filter (\<lambda>e. \<not> snd e) ?rows))"
    by (rule sorted_same_flag[where b = False]) simp
  then have sc: "sorted (map item_id cs)" by (simp only: made_ids[OF c])
  have tn: "\<forall>it\<in>set ns. listingType it = ''new''"
  proof
    fix it assume "it \<in> set ns"
    from made_from_row[OF n this] obtain e where "e \<in> set (filter snd ?rows)"
      "make_item e = Inr it" by blast
    then show "listingType it = ''new''" using make_item_type[of e it] by simp
  qed
  have tc: "\<forall>it\<in>set cs. listingType it = ''cross''"
  proof
    fix it assume "it \<in> set cs"
    from made_from_row[OF c this] obtain e where "e \<in> set (filter (\<lambda>e. \<not> snd e) ?rows)"
      "make_item e = Inr it" by blast
    then show "listingType it = ''cross''" using make_item_type[of e it] by simp
  qed
  from l tn tc sn sc show ?thesis by blast
qed

theorem new_before_cross_ids_ascending_witness:
  "\<not> isl (get_articles_for_month ex_db ex_tax ''cs.AI'' 2009 (Some 3) 0 10)
   \<and> (\<exists>ns cs. listings (projr (get_articles_for_month ex_db ex_tax ''cs.AI'' 2009 (Some 3) 0 10))
                 = ns @ cs
          \<and> list_all (\<lambda>it. listingType it = ''new'') ns
          \<and> list_all (\<lambda>it. listingType it = ''cross'') cs
          \<and> sorted (map item_id ns) \<and> sorted (map item_id cs))
   \<and> map (\<lambda>it. (listingType it, item_id it))
         (listings (projr (get_articles_for_month ex_db ex_tax ''cs.AI'' 2009 (Some 3) 0 10)))
       = [(''new'', ''0903.0001''), (''new'', ''0903.0003''), (''cross'', ''0903.0002'')]"
proof -
  let ?g = "get_articles_for_month ex_db ex_tax ''cs.AI'' 2009 (Some 3) 0 10"
  have r: "\<not> isl ?g" by code_simp
  then obtain l where l: "?g = Inr l" by (cases ?g) auto
  have v: "map (\<lambda>it. (listingType it, item_id it)) (listings (projr ?g))
       = [(''new'', ''0903.0001''), (''new'', ''0903.0003''), (''cross'', ''0903.0002'')]"
    by code_simp
  from new_before_cross_ids_ascending[OF l] obtain ns cs where
    "listings l = ns @ cs" "\<forall>it\<in>set ns. listingType it = ''new''"
    "\<forall>it\<in>set cs. listingType it = ''cross''" "sorted (map item_id ns)" "sorted (map item_id cs)"
    by blast
  then have "\<exists>ns cs. listings (projr ?g) = ns @ cs
          \<and> list_all (\<lambda>it. listingType it = ''new'') ns
          \<and> list_all (\<lambda>it. listingType it = ''cross'') cs
          \<and> sorted (map item_id ns) \<and> sorted (map item_id cs)"
    unfolding l list_all_iff by (intro exI[of _ ns] exI[of _ cs]) simp
  with r v show ?thesis by blast
qed

subsection \<open>New and cross: the primary flag\<close>

lemma Max_bool: "finite S \<Longrightarrow> S \<noteq> {} \<Longrightarrow> Max S = (True \<in> S)"
proof -
  assume f: "finite S" and n: "S \<noteq> {}"
  show "Max S = (True \<in> S)"
  proof (cases "True \<in> S")
    case True
    with f have "True \<le> Max S" by (rule Max_ge)
    with True show ?thesis by simp
  next
    case False
    from f n have "Max S \<in> S" by (rule Max_in)
    with False show ?thesis by (cases "Max S") auto
  qed
qed

lemma cat_query_flag:
  assumes "(d, p) \<in> set (cat_query db ids cats)"
  shows "p = (\<exists>r\<in>set (document_categories db).
                dc_document_id r = d \<and> dc_category r \<in> set cats \<and> dc_is_primary r)"
    and "d \<in> set ids"
proof -
  let ?rows = "filter (\<lambda>r. dc_document_id r \<in> set ids \<and> dc_category r \<in> set cats)
                 (document_categories db)"
  let ?grp = "filter (\<lambda>r. dc_document_id r = d) ?rows"
  from assms have d: "d \<in> set (map dc_document_id ?rows)"
    and p: "p = Max (set (map dc_is_primary ?grp))"
    by (auto simp: cat_query_def Let_def)
  from d obtain r0 where r0: "r0 \<in> set ?rows" "dc_document_id r0 = d" by auto
  then show "d \<in> set ids" by auto
  from r0 have "r0 \<in> set ?grp" by simp
  then have "set (map dc_is_primary ?grp) \<noteq> {}" by auto
  then have "p = (True \<in> set (map dc_is_primary ?grp))"
    unfolding p by (intro Max_bool) simp_all
  also have "\<dots> = (\<exists>r\<in>set (document_categories db).
                dc_document_id r = d \<and> dc_category r \<in> set cats \<and> dc_is_primary r)"
    using \<open>d \<in> set ids\<close> by auto
  finally show "p = (\<exists>r\<in>set (document_categories db).
                dc_document_id r = d \<and> dc_category r \<in> set cats \<and> dc_is_primary r)" .
qed

lemma joined_rows_flag:
  assumes "(m, p) \<in> set (joined_rows db cats y mo)"
  shows "m \<in> set (metadata db)" "is_current m = 1"
    "p = (\<exists>r\<in>set (document_categories db).
            dc_document_id r = document_id m \<and> dc_category r \<in> set cats \<and> dc_is_primary r)"
proof -
  from assms obtain d q where dq: "(d, q) \<in> set (cat_query db (doc_ids db y mo) cats)"
    and m: "(m, p) \<in> set (map (\<lambda>m. (m, q))
                (filter (\<lambda>m. document_id m = d \<and> is_current m = 1) (metadata db)))"
    by (auto simp: joined_rows_def main_query_def)
  from m show "m \<in> set (metadata db)" "is_current m = 1" by auto
  from m have "p = q" "document_id m = d" by auto
  with cat_query_flag(1)[OF dq]
  show "p = (\<exists>r\<in>set (document_categories db).
            dc_document_id r = document_id m \<and> dc_category r \<in> set cats \<and> dc_is_primary r)"
    by simp
qed

lemma listing_item_row:
  assumes "all_possible_categories tax t = Inr cats"
    and "get_articles_for_month db tax t y mo skip show = Inr l"
    and "it \<in> set (listings l)"
  shows "\<exists>m p. (m, p) \<in> set (joined_rows db cats y mo) \<and> make_item (m, p) = Inr it"
proof -
  let ?rows = "result_rows db cats y mo skip show"
  from assms(1,2) obtain ns cs where e: "entries_into_listing_items ?rows = Inr (ns, cs)"
    and l: "listings l = ns @ cs"
    by (auto simp: get_articles_for_month_def split: sum.splits prod.splits)
  from assms(3) l have "it \<in> set ns \<or> it \<in> set cs" by simp
  then obtain e' where "e' \<in> set ?rows" "make_item e' = Inr it"
    using made_from_row[OF entries_items(1)[OF e]] made_from_row[OF entries_items(2)[OF e]]
    by fastforce
  with result_rows_subset[of db cats y mo skip "show"]
  have "(fst e', snd e') \<in> set (joined_rows db cats y mo) \<and> make_item (fst e', snd e') = Inr it"
    by auto
  then show ?thesis by blast
qed

lemma agreeD:
  assumes "categories_agree db" "m \<in> set (metadata db)" "is_current m = 1"
    "py_split (abs_categories m) = pc # scs"
  shows "\<forall>r\<in>set (document_categories db).
          dc_document_id r = document_id m \<and> dc_is_primary r \<longrightarrow> dc_category r = pc"
    and "\<exists>r\<in>set (document_categories db).
          dc_document_id r = document_id m \<and> dc_category r = pc \<and> dc_is_primary r"
proof -
  from assms(1) have "\<forall>m\<in>set (metadata db). is_current m = 1 \<longrightarrow>
        (case py_split (abs_categories m) of
           [] \<Rightarrow> True
         | pc # scs \<Rightarrow>
             (\<forall>r\<in>set (document_categories db).
                 dc_document_id r = document_id m \<and> dc_is_primary r \<longrightarrow> dc_category r = pc)
             \<and> (\<exists>r\<in>set (document_categories db).
                 dc_document_id r = document_id m \<and> dc_category r = pc \<and> dc_is_primary r))"
    unfolding categories_agree_def .
  from bspec[OF this assms(2)] assms(3) have "case py_split (abs_categories m) of
           [] \<Rightarrow> True
         | pc # scs \<Rightarrow>
             (\<forall>r\<in>set (document_categories db).
                 dc_document_id r = document_id m \<and> dc_is_primary r \<longrightarrow> dc_category r = pc)
             \<and> (\<exists>r\<in>set (document_categories db).
                 dc_document_id r = document_id m \<and> dc_category r = pc \<and> dc_is_primary r)"
    by (rule mp)
  then have c: "(\<forall>r\<in>set (document_categories db).
                 dc_document_id r = document_id m \<and> dc_is_primary r \<longrightarrow> dc_category r = pc)
             \<and> (\<exists>r\<in>set (document_categories db).
                 dc_document_id r = document_id m \<and> dc_category r = pc \<and> dc_is_primary r)"
    unfolding assms(4) list.case .
  from c show "\<forall>r\<in>set (document_categories db).
          dc_document_id r = document_id m \<and> dc_is_primary r \<longrightarrow> dc_category r = pc" ..
  from c show "\<exists>r\<in>set (document_categories db).
          dc_document_id r = document_id m \<and> dc_category r = pc \<and> dc_is_primary r" ..
qed

text \<open>
  Claim C1, as the code has it. Every returned item is new or cross and comes from a current
  metadata record; it is new exactly when a row of the category table for that document,
  with a category of the resolved list, is flagged primary. When the category table agrees
  with the category strings, this is the claim: an item is new exactly when the first token
  of its category string is in the resolved list.
\<close>

theorem new_iff_primary_row:
  assumes "all_possible_categories tax t = Inr cats"
    and "get_articles_for_month db tax t y mo skip show = Inr l"
  shows "(\<forall>it\<in>set (listings l).
            (listingType it = ''new'' \<or> listingType it = ''cross'')
            \<and> (\<exists>m\<in>set (metadata db). is_current m = 1 \<and> item_id it = paper_id m
                  \<and> py_split (abs_categories m) \<noteq> []
                  \<and> primary it = hd (py_split (abs_categories m))
                  \<and> (listingType it = ''new'')
                      = (\<exists>r\<in>set (document_categories db).
                           dc_document_id r = document_id m \<and> dc_category r \<in> set cats
                           \<and> dc_is_primary r)))
         \<and> (categories_agree db \<longrightarrow>
              (\<forall>it\<in>set (listings l). (listingType it = ''new'') = (primary it \<in> set cats)))"
proof (intro conjI ballI impI)
  fix it assume it: "it \<in> set (listings l)"
  from listing_item_row[OF assms it] obtain m p where
    mp: "(m, p) \<in> set (joined_rows db cats y mo)" and mk: "make_item (m, p) = Inr it" by blast
  note i = make_item_Inr[OF mk] and j = joined_rows_flag[OF mp]
  show "listingType it = ''new'' \<or> listingType it = ''cross''" using i(2) by simp
  have "(listingType it = ''new'') = p" using i(2) by simp
  with i j show "\<exists>m\<in>set (metadata db). is_current m = 1 \<and> item_id it = paper_id m
                  \<and> py_split (abs_categories m) \<noteq> []
                  \<and> primary it = hd (py_split (abs_categories m))
                  \<and> (listingType it = ''new'')
                      = (\<exists>r\<in>set (document_categories db).
                           dc_document_id r = document_id m \<and> dc_category r \<in> set cats
                           \<and> dc_is_primary r)"
    by (intro bexI[of _ m]) simp_all
next
  fix it assume agree: "categories_agree db" and it: "it \<in> set (listings l)"
  from listing_item_row[OF assms it] obtain m p where
    mp: "(m, p) \<in> set (joined_rows db cats y mo)" and mk: "make_item (m, p) = Inr it" by blast
  note i = make_item_Inr[OF mk] and j = joined_rows_flag[OF mp]
  from i(3) obtain pc scs where sp: "py_split (abs_categories m) = pc # scs"
    by (cases "py_split (abs_categories m)") auto
  with i(4) have pr: "primary it = pc" by simp
  note a = agreeD(1)[OF agree j(1,2) sp] and b = agreeD(2)[OF agree j(1,2) sp]
  have "(listingType it = ''new'') = p" using i(2) by simp
  also have "p = (pc \<in> set cats)"
  proof
    assume p
    with j(3) obtain r where r: "r \<in> set (document_categories db)"
      "dc_document_id r = document_id m" "dc_category r \<in> set cats" "dc_is_primary r"
      by blast
    from a r(1,2,4) have "dc_category r = pc" by blast
    with r(3) show "pc \<in> set cats" by simp
  next
    assume pc: "pc \<in> set cats"
    from b obtain r where "r \<in> set (document_categories db)"
      "dc_document_id r = document_id m" "dc_category r = pc" "dc_is_primary r"
      by blast
    with pc have "\<exists>r\<in>set (document_categories db).
            dc_document_id r = document_id m \<and> dc_category r \<in> set cats \<and> dc_is_primary r"
      by blast
    with j(3) show p by simp
  qed
  finally show "(listingType it = ''new'') = (primary it \<in> set cats)" using pr by simp
qed

theorem new_iff_primary_row_witness:
  "categories_agree ex_db
   \<and> all_possible_categories ex_tax ''cs.AI'' = Inr [''cs.AI'']
   \<and> \<not> isl (get_articles_for_month ex_db ex_tax ''cs.AI'' 2009 (Some 3) 0 10)
   \<and> list_all (\<lambda>it. (listingType it = ''new'') = (primary it \<in> set [''cs.AI'']))
        (listings (projr (get_articles_for_month ex_db ex_tax ''cs.AI'' 2009 (Some 3) 0 10)))
   \<and> map (\<lambda>it. (listingType it, primary it))
         (listings (projr (get_articles_for_month ex_db ex_tax ''cs.AI'' 2009 (Some 3) 0 10)))
       = [(''new'', ''cs.AI''), (''new'', ''cs.AI''), (''cross'', ''cs.LG'')]"
proof -
  let ?g = "get_articles_for_month ex_db ex_tax ''cs.AI'' 2009 (Some 3) 0 10"
  have a: "categories_agree ex_db" by code_simp
  have c: "all_possible_categories ex_tax ''cs.AI'' = Inr [''cs.AI'']" by code_simp
  have r: "\<not> isl ?g" by code_simp
  then obtain l where l: "?g = Inr l" by (cases ?g) auto
  have v: "map (\<lambda>it. (listingType it, primary it)) (listings (projr ?g))
       = [(''new'', ''cs.AI''), (''new'', ''cs.AI''), (''cross'', ''cs.LG'')]"
    by code_simp
  from new_iff_primary_row[OF c l] a
  have "\<forall>it\<in>set (listings l). (listingType it = ''new'') = (primary it \<in> set [''cs.AI''])"
    by blast
  then have "list_all (\<lambda>it. (listingType it = ''new'') = (primary it \<in> set [''cs.AI'']))
        (listings (projr ?g))"
    unfolding l list_all_iff by simp
  with a c r v show ?thesis by blast
qed

text \<open>
  Without that agreement the claim fails: the table flags \<open>cs.AI\<close> as primary, the string
  starts with \<open>cs.LG\<close>, and the item is new for \<open>cs.AI\<close>.
\<close>

theorem new_with_other_first_token:
  "all_possible_categories ex_tax ''cs.AI'' = Inr [''cs.AI'']
   \<and> map (\<lambda>it. (listingType it, primary it))
         (listings (projr (get_articles_for_month ex_db_mismatch ex_tax ''cs.AI'' 2009 (Some 3) 0 10)))
       = [(''new'', ''cs.LG'')]
   \<and> ''cs.LG'' \<notin> set [''cs.AI'']"
  by code_simp

subsection \<open>Aliases\<close>

lemma alias_lookup_pair:
  assumes "distinct (map fst al @ map snd al)" "(k, v) \<in> set al"
  shows "alias_lookup al k = Some v \<and> alias_lookup al v = Some k"
  using assms
proof (induction al)
  case Nil
  then show ?case by simp
next
  case (Cons a al)
  obtain k' v' where a: "a = (k', v')" by (cases a)
  show ?case
  proof (cases "(k, v) = a")
    case True
    with a Cons.prems(1) show ?thesis by auto
  next
    case False
    with Cons.prems(2) have in_al: "(k, v) \<in> set al" by simp
    then have kv: "k \<in> set (map fst al)" "v \<in> set (map snd al)" by force+
    from Cons.prems(1) have d: "distinct (map fst al @ map snd al)" by auto
    from Cons.prems(1) a kv have "k \<noteq> k'" "k \<noteq> v'" "v \<noteq> k'" "v \<noteq> v'" by auto
    with Cons.IH[OF d in_al] a show ?thesis by simp
  qed
qed

lemma resolve_with_second_name:
  assumes "resolvable tax c"
  shows "\<exists>cats. all_possible_categories tax c = Inr cats
           \<and> set (with_second_name tax c) \<subseteq> set cats"
proof (cases "c \<in> set (ARCHIVES tax)")
  case True
  with assms have "(c, c) \<in> set (CATEGORIES tax)" by (simp add: resolvable_def)
  then have "set (with_second_name tax c) \<subseteq> set (get_categories_from_archive tax c)"
    by (force simp: get_categories_from_archive_def)
  with True show ?thesis by (simp add: all_possible_categories_def)
next
  case False
  with assms show ?thesis by (simp add: all_possible_categories_def resolvable_def)
qed

text \<open>
  Claim C8. For an alias pair of a taxonomy in which no name occurs twice in the alias
  table and both names are resolvable, resolving the old name and resolving the new name
  each succeed with a list that contains both names.
\<close>

theorem alias_resolution_symmetric:
  assumes "(old_name, new_name) \<in> set (CATEGORY_ALIASES tax)"
    and "distinct (map fst (CATEGORY_ALIASES tax) @ map snd (CATEGORY_ALIASES tax))"
    and "resolvable tax old_name" and "resolvable tax new_name"
  shows "\<exists>cats1 cats2.
           all_possible_categories tax old_name = Inr cats1
           \<and> old_name \<in> set cats1 \<and> new_name \<in> set cats1
           \<and> all_possible_categories tax new_name = Inr cats2
           \<and> old_name \<in> set cats2 \<and> new_name \<in> set cats2"
proof -
  note al = alias_lookup_pair[OF assms(2,1)]
  from assms(3,4) have ne: "old_name \<noteq> []" "new_name \<noteq> []" by (simp_all add: resolvable_def)
  have w1: "with_second_name tax old_name = [old_name, new_name]"
    using al ne by (simp add: with_second_name_def check_alternate_name_def)
  have w2: "with_second_name tax new_name = [new_name, old_name]"
    using al ne by (simp add: with_second_name_def check_alternate_name_def)
  from resolve_with_second_name[OF assms(3)] w1 obtain cats1 where
    "all_possible_categories tax old_name = Inr cats1" "old_name \<in> set cats1" "new_name \<in> set cats1"
    by auto
  moreover from resolve_with_second_name[OF assms(4)] w2 obtain cats2 where
    "all_possible_categories tax new_name = Inr cats2" "old_name \<in> set cats2" "new_name \<in> set cats2"
    by auto
  ultimately show ?thesis by blast
qed

theorem alias_resolution_symmetric_witness:
  "(''math.MP'', ''math-ph'') \<in> set (CATEGORY_ALIASES ex_tax)
   \<and> resolvable ex_tax ''math.MP'' \<and> resolvable ex_tax ''math-ph''
   \<and> (\<exists>cats1 cats2.
         all_possible_categories ex_tax ''math.MP'' = Inr cats1
         \<and> ''math.MP'' \<in> set cats1 \<and> ''math-ph'' \<in> set cats1
         \<and> all_possible_categories ex_tax ''math-ph'' = Inr cats2
         \<and> ''math.MP'' \<in> set cats2 \<and> ''math-ph'' \<in> set cats2)"
proof -
  have p: "(''math.MP'', ''math-ph'') \<in> set (CATEGORY_ALIASES ex_tax)"
    by (simp add: ex_tax_def)
  have d: "distinct (map fst (CATEGORY_ALIASES ex_tax) @ map snd (CATEGORY_ALIASES ex_tax))"
    by (simp add: ex_tax_def)
  have r1: "resolvable ex_tax ''math.MP''" by (simp add: resolvable_def ex_tax_def)
  have r2: "resolvable ex_tax ''math-ph''" by (simp add: resolvable_def ex_tax_def)
  from alias_resolution_symmetric[OF p d r1 r2] p r1 r2 show ?thesis by blast
qed

end
